theory Spec2Isabelle
  imports Main "HOL-Library.AList"
begin

section \<open>Exceptions\<close>

text \<open>
  Every exception that \<^verbatim>\<open>datastore.py\<close> raises, catches or lets through is a value.
  The etcd client signals a missing key with an exception that is a \<^verbatim>\<open>KeyError\<close>
  (the module catches it with \<^verbatim>\<open>except KeyError\<close> everywhere); it is kept apart from
  the \<^verbatim>\<open>KeyError\<close>s that the module raises itself, which carry a message.
\<close>

datatype error =
    EtcdKeyNotFound
  | KeyError string
  | AddrFormatError
  | ValueError
  | AssertionError
  | TypeError
  | StopIteration
  | EtcdException

text \<open>What \<^verbatim>\<open>except KeyError\<close> catches.\<close>

fun is_KeyError :: "error \<Rightarrow> bool" where
  "is_KeyError EtcdKeyNotFound = True"
| "is_KeyError (KeyError msg) = True"
| "is_KeyError e = False"


section \<open>The netaddr library\<close>

text \<open>
  \<^verbatim>\<open>netaddr.IPAddress\<close> is an IP version with an integer value, \<^verbatim>\<open>netaddr.IPNetwork\<close>
  adds a prefix length. The value of an \<^verbatim>\<open>IPNetwork\<close> keeps its host bits
  (\<^verbatim>\<open>IPNetwork('10.1.1.1/8')\<close> prints as \<^verbatim>\<open>10.1.1.1/8\<close>).
\<close>

datatype ip_address = IPAddr (addr_version: nat) (addr_value: nat)

datatype ip_network = IPNet (net_version: nat) (net_value: nat) (prefixlen: nat)

definition width :: "nat \<Rightarrow> nat" where
  "width v = (if v = 4 then 32 else 128)"

text \<open>The number of host bits, and the first and last address of the network.\<close>

definition hostbits :: "ip_network \<Rightarrow> nat" where
  "hostbits n = width (net_version n) - prefixlen n"

definition first :: "ip_network \<Rightarrow> nat" where
  "first n = (net_value n div 2 ^ hostbits n) * 2 ^ hostbits n"

definition last_addr :: "ip_network \<Rightarrow> nat" where
  "last_addr n = first n + 2 ^ hostbits n - 1"

text \<open>
  \<^verbatim>\<open>IPNetwork.cidr\<close>: the same network with the host bits cleared.
\<close>

definition cidr :: "ip_network \<Rightarrow> ip_network" where
  "cidr n = IPNet (net_version n) (first n) (prefixlen n)"

text \<open>
  \<^verbatim>\<open>IPNetwork.__eq__\<close> and \<^verbatim>\<open>__hash__\<close> go through \<^verbatim>\<open>key()\<close>, which is the version with
  the first and the last address: two networks that differ in their host bits only are
  equal, as set members and as dictionary keys too.
\<close>

definition net_key :: "ip_network \<Rightarrow> nat \<times> nat \<times> nat" where
  "net_key n = (net_version n, first n, last_addr n)"

definition net_eq :: "ip_network \<Rightarrow> ip_network \<Rightarrow> bool" where
  "net_eq a b = (net_key a = net_key b)"

text \<open>
  \<^verbatim>\<open>IPAddress.__nonzero__\<close> (\<^verbatim>\<open>__bool__\<close>): an address is true when its numerical value
  is not zero. \<^verbatim>\<open>0.0.0.0\<close> and \<^verbatim>\<open>::\<close> are false.
\<close>

definition addr_bool :: "ip_address \<Rightarrow> bool" where
  "addr_bool a = (addr_value a \<noteq> 0)"

text \<open>
  The textual side of the library is a parameter of the model: the two constructors
  applied to a string (\<^verbatim>\<open>Inl AddrFormatError\<close> when the string is no address) and
  \<^verbatim>\<open>str\<close> of the two classes.
\<close>

record netaddr =
  IPAddress :: "string \<Rightarrow> error + ip_address"
  IPNetwork :: "string \<Rightarrow> error + ip_network"
  str_address :: "ip_address \<Rightarrow> string"
  str_network :: "ip_network \<Rightarrow> string"


subsection \<open>Dotted-quad IPv4 text\<close>

text \<open>
  One instance of the textual side, for concrete inputs: IPv4 literals in strict
  dotted-quad form and networks as \<^verbatim>\<open>a.b.c.d/len\<close> (a bare address is a \<^verbatim>\<open>/32\<close>).
  Every other string is rejected, so it stands for netaddr on these literals and on
  strings that are no address at all.
\<close>

definition digit_val :: "char \<Rightarrow> nat option" where
  "digit_val c = map_of (zip ''0123456789'' [0, 1, 2, 3, 4, 5, 6, 7, 8, 9]) c"

fun dec_acc :: "nat \<Rightarrow> string \<Rightarrow> nat option" where
  "dec_acc acc [] = Some acc"
| "dec_acc acc (c # cs) =
     (case digit_val c of None \<Rightarrow> None | Some d \<Rightarrow> dec_acc (10 * acc + d) cs)"

definition parse_dec :: "string \<Rightarrow> nat option" where
  "parse_dec s = (if s = [] \<or> 3 < length s then None else dec_acc 0 s)"

definition digit_char :: "nat \<Rightarrow> char" where
  "digit_char d = ''0123456789'' ! d"

definition show_dec :: "nat \<Rightarrow> string" where
  "show_dec n =
     (if n < 10 then [digit_char n]
      else if n < 100 then [digit_char (n div 10), digit_char (n mod 10)]
      else [digit_char (n div 100 mod 10), digit_char (n div 10 mod 10), digit_char (n mod 10)])"

text \<open>\<^verbatim>\<open>str.split(sep)\<close> for a one-character separator.\<close>

fun split :: "char \<Rightarrow> string \<Rightarrow> string list" where
  "split sep [] = [[]]"
| "split sep (c # cs) =
     (if c = sep then [] # split sep cs
      else (case split sep cs of [] \<Rightarrow> [[c]] | w # ws \<Rightarrow> (c # w) # ws))"

definition parse_quad :: "string \<Rightarrow> nat option" where
  "parse_quad s =
     (case map parse_dec (split CHR ''.'' s) of
        [Some a, Some b, Some c, Some d] \<Rightarrow>
          (if a < 256 \<and> b < 256 \<and> c < 256 \<and> d < 256
           then Some (((a * 256 + b) * 256 + c) * 256 + d) else None)
      | _ \<Rightarrow> None)"

definition show_quad :: "nat \<Rightarrow> string" where
  "show_quad v =
     show_dec (v div 16777216 mod 256) @ ''.'' @ show_dec (v div 65536 mod 256) @ ''.'' @
     show_dec (v div 256 mod 256) @ ''.'' @ show_dec (v mod 256)"

definition ipv4_IPAddress :: "string \<Rightarrow> error + ip_address" where
  "ipv4_IPAddress s =
     (case parse_quad s of None \<Rightarrow> Inl AddrFormatError | Some v \<Rightarrow> Inr (IPAddr 4 v))"

definition ipv4_IPNetwork :: "string \<Rightarrow> error + ip_network" where
  "ipv4_IPNetwork s =
     (case split CHR ''/'' s of
        [a] \<Rightarrow> (case parse_quad a of None \<Rightarrow> Inl AddrFormatError
                | Some v \<Rightarrow> Inr (IPNet 4 v 32))
      | [a, l] \<Rightarrow>
          (case (parse_quad a, parse_dec l) of
             (Some v, Some len) \<Rightarrow>
               (if len \<le> 32 then Inr (IPNet 4 v len) else Inl AddrFormatError)
           | _ \<Rightarrow> Inl AddrFormatError)
      | _ \<Rightarrow> Inl AddrFormatError)"

definition ipv4_text :: netaddr where
  "ipv4_text =
     \<lparr> IPAddress = ipv4_IPAddress,
       IPNetwork = ipv4_IPNetwork,
       str_address = (\<lambda>a. show_quad (addr_value a)),
       str_network = (\<lambda>n. show_quad (net_value n) @ ''/'' @ show_dec (prefixlen n)) \<rparr>"


section \<open>Rules and policies\<close>

text \<open>
  A \<^verbatim>\<open>Rule\<close> is a dictionary whose \<^verbatim>\<open>__setitem__\<close> refuses every key outside
  \<^verbatim>\<open>ALLOWED_KEYS\<close>. The dictionary is an association list with one entry per key.
\<close>

type_synonym rule = "(string \<times> string) list"

definition ALLOWED_KEYS :: "string list" where
  "ALLOWED_KEYS =
     [''protocol'', ''src_tag'', ''src_ports'', ''src_net'', ''dst_tag'', ''dst_ports'',
      ''dst_net'', ''icmp_type'', ''action'']"

definition Rule_setitem :: "rule \<Rightarrow> string \<Rightarrow> string \<Rightarrow> error + rule" where
  "Rule_setitem self key v =
     (if key \<notin> set ALLOWED_KEYS
      then Inl (KeyError (''Key '' @ key @ '' is not allowed on Rule.''))
      else Inr (AList.update key v self))"

text \<open>
  \<^verbatim>\<open>Rule.__init__\<close>: the loop over \<^verbatim>\<open>kwargs.iteritems()\<close>, from the empty dictionary.
  The keyword arguments come as the list of their items, in the order of the iteration;
  the first refused key ends the construction.
\<close>

fun Rule_items :: "rule \<Rightarrow> (string \<times> string) list \<Rightarrow> error + rule" where
  "Rule_items self [] = Inr self"
| "Rule_items self ((key, v) # kwargs) =
     (case Rule_setitem self key v of
        Inl e \<Rightarrow> Inl e
      | Inr self' \<Rightarrow> Rule_items self' kwargs)"

definition Rule :: "(string \<times> string) list \<Rightarrow> error + rule" where
  "Rule kwargs = Rule_items [] kwargs"

text \<open>\<^verbatim>\<open>Rules\<close>, the named tuple of a profile's policy.\<close>

record rules =
  rules_id :: string
  inbound_rules :: "rule list"
  outbound_rules :: "rule list"


section \<open>Endpoints and their JSON form\<close>

text \<open>
  The sets of networks of an endpoint are lists in the order of iteration; membership
  is netaddr's equality.
\<close>

record endpoint =
  ep_id :: string
  state :: string
  mac :: string
  profile_id :: "string option"
  ipv4_nets :: "ip_network list"
  ipv6_nets :: "ip_network list"
  ipv4_gateway :: "ip_address option"
  ipv6_gateway :: "ip_address option"

text \<open>The dictionary that \<^verbatim>\<open>to_json\<close> dumps; \<^verbatim>\<open>None\<close> is JSON's \<^verbatim>\<open>null\<close>.\<close>

record json_endpoint =
  j_state :: string
  j_name :: string
  j_mac :: string
  j_profile_id :: "string option"
  j_ipv4_nets :: "string list"
  j_ipv6_nets :: "string list"
  j_ipv4_gateway :: "string option"
  j_ipv6_gateway :: "string option"

text \<open>
  A value held by the store is a string. A string that \<^verbatim>\<open>json.dumps\<close> made is kept as the
  document it encodes, and \<^verbatim>\<open>json.loads\<close> gives that document back; \<^verbatim>\<open>Text\<close> is any
  string that is not a JSON document.
\<close>

datatype etcd_value =
    Text string
  | EndpointJson json_endpoint
  | RulesJson rules

definition IF_PREFIX :: string where
  "IF_PREFIX = ''cali''"

definition to_json :: "netaddr \<Rightarrow> endpoint \<Rightarrow> etcd_value" where
  "to_json N self =
     EndpointJson
       \<lparr> j_state = state self,
         j_name = IF_PREFIX @ take 11 (ep_id self),
         j_mac = mac self,
         j_profile_id = profile_id self,
         j_ipv4_nets = map (str_network N) (ipv4_nets self),
         j_ipv6_nets = map (str_network N) (ipv6_nets self),
         j_ipv4_gateway =
           (case ipv4_gateway self of
              None \<Rightarrow> None
            | Some gw \<Rightarrow> if addr_bool gw then Some (str_address N gw) else None),
         j_ipv6_gateway =
           (case ipv6_gateway self of
              None \<Rightarrow> None
            | Some gw \<Rightarrow> if addr_bool gw then Some (str_address N gw) else None) \<rparr>"

text \<open>\<^verbatim>\<open>set.add\<close> on a set of networks.\<close>

definition set_add :: "ip_network list \<Rightarrow> ip_network \<Rightarrow> ip_network list" where
  "set_add nets n = (if list_ex (\<lambda>m. net_eq m n) nets then nets else nets @ [n])"

text \<open>The loops \<^verbatim>\<open>for net in json_dict[...]: nets.add(IPNetwork(net))\<close>.\<close>

fun add_nets :: "netaddr \<Rightarrow> ip_network list \<Rightarrow> string list \<Rightarrow> error + ip_network list" where
  "add_nets N nets [] = Inr nets"
| "add_nets N nets (net # rest) =
     (case IPNetwork N net of
        Inl e \<Rightarrow> Inl e
      | Inr n \<Rightarrow> add_nets N (set_add nets n) rest)"

text \<open>
  \<^verbatim>\<open>if gw: ep.gateway = IPAddress(gw)\<close>: \<^verbatim>\<open>null\<close> and the empty string are false and
  leave the field \<^verbatim>\<open>None\<close>; any other string goes to \<^verbatim>\<open>IPAddress\<close>, whose exception is
  not caught.
\<close>

definition read_gateway :: "netaddr \<Rightarrow> string option \<Rightarrow> error + ip_address option" where
  "read_gateway N gw =
     (case gw of
        None \<Rightarrow> Inr None
      | Some s \<Rightarrow>
          if s = [] then Inr None
          else (case IPAddress N s of Inl e \<Rightarrow> Inl e | Inr a \<Rightarrow> Inr (Some a)))"

text \<open>
  \<^verbatim>\<open>Endpoint.from_json\<close>. \<^verbatim>\<open>json.loads\<close> raises \<^verbatim>\<open>ValueError\<close> on a string that is no
  JSON document; the dictionary of a policy has no key \<^verbatim>\<open>state\<close>.
\<close>

definition from_json :: "netaddr \<Rightarrow> string \<Rightarrow> etcd_value \<Rightarrow> error + endpoint" where
  "from_json N ep_id' json_str =
     (case json_str of
        Text s \<Rightarrow> Inl ValueError
      | RulesJson r \<Rightarrow> Inl (KeyError ''state'')
      | EndpointJson json_dict \<Rightarrow>
          (case add_nets N [] (j_ipv4_nets json_dict) of
             Inl e \<Rightarrow> Inl e
           | Inr nets4 \<Rightarrow>
               (case add_nets N [] (j_ipv6_nets json_dict) of
                  Inl e \<Rightarrow> Inl e
                | Inr nets6 \<Rightarrow>
                    (case read_gateway N (j_ipv4_gateway json_dict) of
                       Inl e \<Rightarrow> Inl e
                     | Inr gw4 \<Rightarrow>
                         (case read_gateway N (j_ipv6_gateway json_dict) of
                            Inl e \<Rightarrow> Inl e
                          | Inr gw6 \<Rightarrow>
                              Inr \<lparr> ep_id = ep_id',
                                    state = j_state json_dict,
                                    mac = j_mac json_dict,
                                    profile_id = j_profile_id json_dict,
                                    ipv4_nets = nets4,
                                    ipv6_nets = nets6,
                                    ipv4_gateway = gw4,
                                    ipv6_gateway = gw6 \<rparr>)))))"

text \<open>
  A list that stands for a Python set of networks: no two members are equal as netaddr
  compares them.
\<close>

fun py_set :: "ip_network list \<Rightarrow> bool" where
  "py_set [] = True"
| "py_set (n # ns) = (\<not> list_ex (\<lambda>m. net_eq n m) ns \<and> py_set ns)"

text \<open>A gateway that survives \<^verbatim>\<open>to_json\<close> and \<^verbatim>\<open>from_json\<close>.\<close>

definition gateway_round_trips :: "netaddr \<Rightarrow> ip_address option \<Rightarrow> bool" where
  "gateway_round_trips N g =
     (case g of
        None \<Rightarrow> True
      | Some a \<Rightarrow>
          addr_bool a \<and> str_address N a \<noteq> [] \<and> IPAddress N (str_address N a) = Inr a)"

text \<open>The endpoint and the payloads of the examples.\<close>

definition zero_gateway_endpoint :: endpoint where
  "zero_gateway_endpoint =
     \<lparr> ep_id = ''e1'', state = ''active'', mac = ''aa:bb:cc:dd:ee:ff'', profile_id = None,
       ipv4_nets = [], ipv6_nets = [],
       ipv4_gateway = Some (IPAddr 4 0), ipv6_gateway = None \<rparr>"



section \<open>The etcd store and its client\<close>

text \<open>
  The store is a tree of directories and files. A key is a string; the store reads it
  as the path of its non-empty segments, and names a node by \<^verbatim>\<open>/\<close> and the segments.
  The index counts the changes and names the keys that \<^verbatim>\<open>append=True\<close> makes.
\<close>

type_synonym path = "string list"

datatype node = File etcd_value | Dir "(string \<times> node) list"

record store =
  root :: node
  index :: nat

definition path_of :: "string \<Rightarrow> path" where
  "path_of key = filter (\<lambda>w. w \<noteq> []) (split CHR ''/'' key)"

definition key_of :: "path \<Rightarrow> string" where
  "key_of p = concat (map (\<lambda>w. CHR ''/'' # w) p)"

fun lookup :: "path \<Rightarrow> node \<Rightarrow> node option" where
  "lookup [] n = Some n"
| "lookup (w # p) n =
     (case n of
        File v \<Rightarrow> None
      | Dir cs \<Rightarrow> (case map_of cs w of None \<Rightarrow> None | Some c \<Rightarrow> lookup p c))"

text \<open>
  \<^verbatim>\<open>put p new n\<close> sets the node at path \<^verbatim>\<open>p\<close> under \<^verbatim>\<open>n\<close>, making the directories on the
  way; a file on the way is an error of the store.
\<close>

fun put :: "path \<Rightarrow> node \<Rightarrow> node \<Rightarrow> error + node" where
  "put [] new n = Inr new"
| "put (w # p) new n =
     (case n of
        File v \<Rightarrow> Inl EtcdException
      | Dir cs \<Rightarrow>
          (case put p new (case map_of cs w of None \<Rightarrow> Dir [] | Some c \<Rightarrow> c) of
             Inl e \<Rightarrow> Inl e
           | Inr c' \<Rightarrow> Inr (Dir (AList.update w c' cs))))"

fun remove :: "path \<Rightarrow> node \<Rightarrow> node" where
  "remove [w] (Dir cs) = Dir (AList.delete w cs)"
| "remove (w # p) (Dir cs) =
     (case map_of cs w of
        None \<Rightarrow> Dir cs
      | Some c \<Rightarrow> Dir (AList.update w (remove p c) cs))"
| "remove p n = n"

text \<open>
  \<^verbatim>\<open>write(key, value)\<close>: sets the file, whatever it held; a directory at the key is an
  error of the store.
\<close>

definition etcd_write :: "store \<Rightarrow> string \<Rightarrow> etcd_value \<Rightarrow> error + store" where
  "etcd_write s key v =
     (case lookup (path_of key) (root s) of
        Some (Dir cs) \<Rightarrow> Inl EtcdException
      | _ \<Rightarrow>
          (case put (path_of key) (File v) (root s) of
             Inl e \<Rightarrow> Inl e
           | Inr r \<Rightarrow> Inr \<lparr> root = r, index = index s + 1 \<rparr>))"

text \<open>Decimal digits of a number: the name of an in-order key.\<close>

fun show_nat :: "nat \<Rightarrow> string" where
  "show_nat n =
     (if n < 10 then [digit_char n] else show_nat (n div 10) @ [digit_char (n mod 10)])"

declare show_nat.simps [simp del]

text \<open>
  \<^verbatim>\<open>write(key, value, append=True)\<close>: a new file in the directory \<^verbatim>\<open>key\<close>, named by the
  index of the store.
\<close>

definition etcd_write_append :: "store \<Rightarrow> string \<Rightarrow> etcd_value \<Rightarrow> error + store" where
  "etcd_write_append s key v =
     (case lookup (path_of key) (root s) of
        Some (File x) \<Rightarrow> Inl EtcdException
      | _ \<Rightarrow>
          (case put (path_of key @ [show_nat (index s)]) (File v) (root s) of
             Inl e \<Rightarrow> Inl e
           | Inr r \<Rightarrow> Inr \<lparr> root = r, index = index s + 1 \<rparr>))"

text \<open>\<^verbatim>\<open>delete(key)\<close>: removes a file.\<close>

definition etcd_delete :: "store \<Rightarrow> string \<Rightarrow> error + store" where
  "etcd_delete s key =
     (case lookup (path_of key) (root s) of
        None \<Rightarrow> Inl EtcdKeyNotFound
      | Some (Dir cs) \<Rightarrow> Inl EtcdException
      | Some (File v) \<Rightarrow>
          Inr \<lparr> root = remove (path_of key) (root s), index = index s + 1 \<rparr>)"

text \<open>\<^verbatim>\<open>delete(key, recursive=True, dir=True)\<close>: removes the node and all below it.\<close>

definition etcd_delete_recursive :: "store \<Rightarrow> string \<Rightarrow> error + store" where
  "etcd_delete_recursive s key =
     (case lookup (path_of key) (root s) of
        None \<Rightarrow> Inl EtcdKeyNotFound
      | Some n \<Rightarrow>
          if path_of key = [] then Inl EtcdException
          else Inr \<lparr> root = remove (path_of key) (root s), index = index s + 1 \<rparr>)"

text \<open>
  The result of \<^verbatim>\<open>read\<close>: the key of the node and the node, with all below it when the
  read is recursive and with its children only (directories among them empty) when not.
\<close>

record etcd_result =
  res_key :: string
  res_node :: node

definition shallow :: "node \<Rightarrow> node" where
  "shallow n =
     (case n of
        File v \<Rightarrow> File v
      | Dir cs \<Rightarrow>
          Dir (map (\<lambda>(w, c). (w, case c of File v \<Rightarrow> File v | Dir ds \<Rightarrow> Dir [])) cs))"

definition etcd_read :: "store \<Rightarrow> string \<Rightarrow> bool \<Rightarrow> error + etcd_result" where
  "etcd_read s key recursive =
     (case lookup (path_of key) (root s) of
        None \<Rightarrow> Inl EtcdKeyNotFound
      | Some n \<Rightarrow>
          Inr \<lparr> res_key = key_of (path_of key),
                res_node = (if recursive then n else shallow n) \<rparr>)"

text \<open>\<^verbatim>\<open>EtcdResult.value\<close>: \<^verbatim>\<open>None\<close> for a directory.\<close>

definition res_value :: "etcd_result \<Rightarrow> etcd_value option" where
  "res_value r = (case res_node r of File v \<Rightarrow> Some v | Dir cs \<Rightarrow> None)"

text \<open>
  \<^verbatim>\<open>EtcdResult.leaves\<close> (and \<^verbatim>\<open>children\<close>, its old name): the client's
  \<^verbatim>\<open>get_subtree(leaves_only=True)\<close>. A node without children yields itself, so an empty
  directory is a leaf with the value \<^verbatim>\<open>None\<close>.
\<close>

fun subtree_leaves :: "string \<Rightarrow> node \<Rightarrow> (string \<times> etcd_value option) list"
  and children_leaves :: "string \<Rightarrow> (string \<times> node) list \<Rightarrow> (string \<times> etcd_value option) list"
where
  "subtree_leaves k (File v) = [(k, Some v)]"
| "subtree_leaves k (Dir cs) = (if cs = [] then [(k, None)] else children_leaves k cs)"
| "children_leaves k [] = []"
| "children_leaves k ((w, c) # cs) =
     subtree_leaves (k @ ''/'' @ w) c @ children_leaves k cs"

definition leaves :: "etcd_result \<Rightarrow> (string \<times> etcd_value option) list" where
  "leaves r = subtree_leaves (res_key r) (res_node r)"

text \<open>Truth of a value read from the store: \<^verbatim>\<open>None\<close> and the empty string are false.\<close>

definition value_bool :: "etcd_value option \<Rightarrow> bool" where
  "value_bool v = (case v of None \<Rightarrow> False | Some (Text s) \<Rightarrow> s \<noteq> [] | Some d \<Rightarrow> True)"

text \<open>
  The constructors of netaddr on a value read from the store. \<^verbatim>\<open>None\<close> and the text of
  a JSON document are no address.
\<close>

definition IPNetwork_value :: "netaddr \<Rightarrow> etcd_value option \<Rightarrow> error + ip_network" where
  "IPNetwork_value N v =
     (case v of Some (Text s) \<Rightarrow> IPNetwork N s | _ \<Rightarrow> Inl AddrFormatError)"


text \<open>\<^verbatim>\<open>Endpoint.from_json\<close> on a value read from the store; \<^verbatim>\<open>json.loads(None)\<close> raises.\<close>

definition from_json_value :: "netaddr \<Rightarrow> string \<Rightarrow> etcd_value option \<Rightarrow> error + endpoint" where
  "from_json_value N ep_id' v =
     (case v of None \<Rightarrow> Inl TypeError | Some json_str \<Rightarrow> from_json N ep_id' json_str)"

text \<open>
  No file stands on the way to a path: the directories of the path exist or can be
  made. This is when \<^verbatim>\<open>put\<close> succeeds.
\<close>

fun dirs_to :: "path \<Rightarrow> node \<Rightarrow> bool" where
  "dirs_to [] n = True"
| "dirs_to (w # p) n =
     (case n of
        File v \<Rightarrow> False
      | Dir cs \<Rightarrow> (case map_of cs w of None \<Rightarrow> True | Some c \<Rightarrow> dirs_to p c))"


text \<open>
  A well-formed tree: the name of a child is a segment of a key (not empty, without
  \<^verbatim>\<open>/\<close>), and a directory has one child of a name.
\<close>

definition wf_name :: "string \<Rightarrow> bool" where
  "wf_name w = (w \<noteq> [] \<and> CHR ''/'' \<notin> set w)"

fun wf_node :: "node \<Rightarrow> bool" and wf_children :: "(string \<times> node) list \<Rightarrow> bool" where
  "wf_node (File v) = True"
| "wf_node (Dir cs) = wf_children cs"
| "wf_children [] = True"
| "wf_children ((w, c) # cs) =
     (wf_name w \<and> w \<notin> fst ` set cs \<and> wf_node c \<and> wf_children cs)"


section \<open>The datastore client\<close>

subsection \<open>Paths\<close>

definition HOSTS_PATH :: string where
  "HOSTS_PATH = ''/calico/host/''"

definition HOST_PATH :: "string \<Rightarrow> string" where
  "HOST_PATH hostname = HOSTS_PATH @ hostname @ ''/''"

definition CONTAINER_PATH :: "string \<Rightarrow> string \<Rightarrow> string" where
  "CONTAINER_PATH hostname container_id =
     HOST_PATH hostname @ ''workload/docker/'' @ container_id @ ''/''"

definition LOCAL_ENDPOINTS_PATH :: "string \<Rightarrow> string \<Rightarrow> string" where
  "LOCAL_ENDPOINTS_PATH hostname container_id =
     HOST_PATH hostname @ ''workload/docker/'' @ container_id @ ''/endpoint/''"

definition ENDPOINT_PATH :: "string \<Rightarrow> string \<Rightarrow> string \<Rightarrow> string" where
  "ENDPOINT_PATH hostname container_id endpoint_id =
     LOCAL_ENDPOINTS_PATH hostname container_id @ endpoint_id @ ''/''"

definition PROFILES_PATH :: string where
  "PROFILES_PATH = ''/calico/policy/profile/''"

definition PROFILE_PATH :: "string \<Rightarrow> string" where
  "PROFILE_PATH profile = PROFILES_PATH @ profile @ ''/''"

definition IP_POOL_PATH :: "string \<Rightarrow> string" where
  "IP_POOL_PATH version = ''/calico/ipam/'' @ version @ ''/pool/''"

definition IP_POOLS_PATH :: "string \<Rightarrow> string" where
  "IP_POOLS_PATH version = ''/calico/ipam/'' @ version @ ''/pool/''"

text \<open>
  A method of the client takes the store and returns its result, or the exception it
  raised, with the store as it left it.
\<close>

subsection \<open>Hosts and profiles\<close>

text \<open>\<^verbatim>\<open>remove_host\<close>: the \<^verbatim>\<open>KeyError\<close> of the delete is caught.\<close>

definition remove_host :: "store \<Rightarrow> string \<Rightarrow> (error + unit) \<times> store" where
  "remove_host s hostname =
     (case etcd_delete_recursive s (HOST_PATH hostname) of
        Inl e \<Rightarrow> if is_KeyError e then (Inr (), s) else (Inl e, s)
      | Inr s' \<Rightarrow> (Inr (), s'))"



text \<open>\<^verbatim>\<open>delete_group\<close>: the delete stands alone, nothing catches its exception.\<close>

definition delete_group :: "store \<Rightarrow> string \<Rightarrow> (error + unit) \<times> store" where
  "delete_group s name =
     (case etcd_delete_recursive s (PROFILE_PATH name) of
        Inl e \<Rightarrow> (Inl e, s)
      | Inr s' \<Rightarrow> (Inr (), s'))"

subsection \<open>IP pools\<close>

text \<open>
  A dictionary keyed by networks: a key that is equal (as netaddr compares) to one of
  the dictionary gets the new value.
\<close>

fun dict_set :: "(ip_network \<times> 'v) list \<Rightarrow> ip_network \<Rightarrow> 'v \<Rightarrow> (ip_network \<times> 'v) list" where
  "dict_set [] k v = [(k, v)]"
| "dict_set ((k', v') # d) k v =
     (if net_eq k' k then (k', v) # d else (k', v') # dict_set d k v)"

fun dict_get :: "(ip_network \<times> 'v) list \<Rightarrow> ip_network \<Rightarrow> 'v option" where
  "dict_get [] k = None"
| "dict_get ((k', v') # d) k = (if net_eq k' k then Some v' else dict_get d k)"

text \<open>The loop of \<^verbatim>\<open>_get_ip_pools_with_keys\<close> over the children of the pool directory.\<close>

fun pools_of ::
  "netaddr \<Rightarrow> (ip_network \<times> string) list \<Rightarrow> (string \<times> etcd_value option) list \<Rightarrow>
   error + (ip_network \<times> string) list" where
  "pools_of N pools [] = Inr pools"
| "pools_of N pools ((key, cidr') # nodes) =
     (if value_bool cidr'
      then (case IPNetwork_value N cidr' of
              Inl e \<Rightarrow> Inl e
            | Inr pool \<Rightarrow> pools_of N (dict_set pools pool key) nodes)
      else pools_of N pools nodes)"

definition get_ip_pools_with_keys ::
  "netaddr \<Rightarrow> store \<Rightarrow> string \<Rightarrow> error + (ip_network \<times> string) list" where
  "get_ip_pools_with_keys N s version =
     (case etcd_read s (IP_POOLS_PATH version) False of
        Inl e \<Rightarrow> if is_KeyError e then Inr [] else Inl e
      | Inr r \<Rightarrow> pools_of N [] (leaves r))"

definition get_ip_pools :: "netaddr \<Rightarrow> store \<Rightarrow> string \<Rightarrow> error + ip_network list" where
  "get_ip_pools N s version =
     (if version \<noteq> ''v4'' \<and> version \<noteq> ''v6'' then Inl AssertionError
      else (case get_ip_pools_with_keys N s version of
              Inl e \<Rightarrow> if is_KeyError e then Inr [] else Inl e
            | Inr pools \<Rightarrow> Inr (map fst pools)))"

definition add_ip_pool ::
  "netaddr \<Rightarrow> store \<Rightarrow> string \<Rightarrow> ip_network \<Rightarrow> (error + unit) \<times> store" where
  "add_ip_pool N s version pool' =
     (if version \<noteq> ''v4'' \<and> version \<noteq> ''v6'' then (Inl AssertionError, s)
      else
        (let pool = cidr pool' in
         case get_ip_pools N s version of
           Inl e \<Rightarrow> (Inl e, s)
         | Inr pools \<Rightarrow>
             if list_ex (\<lambda>p. net_eq pool p) pools then (Inr (), s)
             else (case etcd_write_append s (IP_POOL_PATH version)
                          (Text (str_network N pool)) of
                     Inl e \<Rightarrow> (Inl e, s)
                   | Inr s' \<Rightarrow> (Inr (), s'))))"

definition not_configured :: "netaddr \<Rightarrow> ip_network \<Rightarrow> error" where
  "not_configured N pool = KeyError (str_network N pool @ '' is not a configured IP pool.'')"

definition del_ip_pool ::
  "netaddr \<Rightarrow> store \<Rightarrow> string \<Rightarrow> ip_network \<Rightarrow> (error + unit) \<times> store" where
  "del_ip_pool N s version pool =
     (if version \<noteq> ''v4'' \<and> version \<noteq> ''v6'' then (Inl AssertionError, s)
      else
        (case get_ip_pools_with_keys N s version of
           Inl e \<Rightarrow> (Inl e, s)
         | Inr pools \<Rightarrow>
             (case dict_get pools (cidr pool) of
                None \<Rightarrow> (Inl (not_configured N pool), s)
              | Some key \<Rightarrow>
                  (case etcd_delete s key of
                     Inl e \<Rightarrow>
                       if is_KeyError e then (Inl (not_configured N pool), s) else (Inl e, s)
                   | Inr s' \<Rightarrow> (Inr (), s')))))"

subsection \<open>Endpoints of a container\<close>

text \<open>\<^verbatim>\<open>str.split(sep, maxsplit)\<close>.\<close>

fun split_max :: "char \<Rightarrow> nat \<Rightarrow> string \<Rightarrow> string list" where
  "split_max sep 0 s = [s]"
| "split_max sep (Suc n) [] = [[]]"
| "split_max sep (Suc n) (c # cs) =
     (if c = sep then [] # split_max sep n cs
      else (case split_max sep (Suc n) cs of [] \<Rightarrow> [[c]] | w # ws \<Rightarrow> (c # w) # ws))"

definition get_ep_id_from_cont :: "store \<Rightarrow> string \<Rightarrow> string \<Rightarrow> error + string" where
  "get_ep_id_from_cont s hostname container_id =
     (case etcd_read s (LOCAL_ENDPOINTS_PATH hostname container_id) False of
        Inl e \<Rightarrow>
          if is_KeyError e
          then Inl (KeyError (''Container with ID '' @ container_id @ '' was not found.''))
          else Inl e
      | Inr r \<Rightarrow>
          (case leaves r of
             [] \<Rightarrow> Inl StopIteration
           | endpoint # rest \<Rightarrow>
               (case split_max CHR ''/'' 8 (fst endpoint) of
                  [a, b, c, d, e, f, g, h, endpoint_id] \<Rightarrow> Inr endpoint_id
                | _ \<Rightarrow> Inl ValueError)))"

definition get_endpoint ::
  "netaddr \<Rightarrow> store \<Rightarrow> string \<Rightarrow> string \<Rightarrow> string \<Rightarrow> error + endpoint" where
  "get_endpoint N s hostname container_id endpoint_id =
     (case etcd_read s (ENDPOINT_PATH hostname container_id endpoint_id) False of
        Inl e \<Rightarrow> Inl e
      | Inr r \<Rightarrow> from_json_value N endpoint_id (res_value r))"

definition set_endpoint ::
  "netaddr \<Rightarrow> store \<Rightarrow> string \<Rightarrow> string \<Rightarrow> endpoint \<Rightarrow> error + store" where
  "set_endpoint N s hostname container_id endpoint' =
     etcd_write s (ENDPOINT_PATH hostname container_id (ep_id endpoint')) (to_json N endpoint')"

definition add_workload_to_group ::
  "netaddr \<Rightarrow> store \<Rightarrow> string \<Rightarrow> string \<Rightarrow> string \<Rightarrow> (error + unit) \<times> store" where
  "add_workload_to_group N s hostname group_name container_id =
     (case get_ep_id_from_cont s hostname container_id of
        Inl e \<Rightarrow> (Inl e, s)
      | Inr endpoint_id \<Rightarrow>
          (case get_endpoint N s hostname container_id endpoint_id of
             Inl e \<Rightarrow> (Inl e, s)
           | Inr ep \<Rightarrow>
               (case set_endpoint N s hostname container_id
                       (ep\<lparr>profile_id := Some group_name\<rparr>) of
                  Inl e \<Rightarrow> (Inl e, s)
                | Inr s' \<Rightarrow> (Inr (), s'))))"

definition remove_workload_from_group ::
  "netaddr \<Rightarrow> store \<Rightarrow> string \<Rightarrow> string \<Rightarrow> (error + unit) \<times> store" where
  "remove_workload_from_group N s hostname container_id =
     (case get_ep_id_from_cont s hostname container_id of
        Inl e \<Rightarrow> (Inl e, s)
      | Inr endpoint_id \<Rightarrow>
          (case get_endpoint N s hostname container_id endpoint_id of
             Inl e \<Rightarrow> (Inl e, s)
           | Inr ep \<Rightarrow>
               (case set_endpoint N s hostname container_id (ep\<lparr>profile_id := None\<rparr>) of
                  Inl e \<Rightarrow> (Inl e, s)
                | Inr s' \<Rightarrow> (Inr (), s'))))"

subsection \<open>The tree of hosts\<close>

text \<open>
  The result of \<^verbatim>\<open>get_hosts\<close> is a \<^verbatim>\<open>Vividict\<close> of four levels (host, container type,
  container, endpoint) over the record of an endpoint. Reading a missing key of a
  \<^verbatim>\<open>Vividict\<close> stores an empty one under the key and returns it.
\<close>

datatype ep_field = PyList "string list" | PyStr string

type_synonym ep_dict = "(string \<times> ep_field) list"
type_synonym container_dict = "(string \<times> ep_dict) list"
type_synonym type_dict = "(string \<times> container_dict) list"
type_synonym host_dict = "(string \<times> type_dict) list"
type_synonym hosts_dict = "(string \<times> host_dict) list"

text \<open>\<^verbatim>\<open>self[key]\<close> with \<^verbatim>\<open>__missing__\<close>: the value and the dictionary after the read.\<close>

definition vivi_get :: "(string \<times> 'a list) list \<Rightarrow> string \<Rightarrow> 'a list \<times> (string \<times> 'a list) list" where
  "vivi_get self key =
     (case map_of self key of
        Some v \<Rightarrow> (v, self)
      | None \<Rightarrow> ([], AList.update key [] self))"

text \<open>
  A change of the value that \<^verbatim>\<open>self[key]\<close> returns is a change of \<^verbatim>\<open>self\<close>: the value is
  an object that the dictionary holds.
\<close>

definition vivi_at :: "string \<Rightarrow> ('a list \<Rightarrow> 'a list) \<Rightarrow> (string \<times> 'a list) list \<Rightarrow> (string \<times> 'a list) list" where
  "vivi_at key f self = (case vivi_get self key of (v, self') \<Rightarrow> AList.update key (f v) self')"

text \<open>\<^verbatim>\<open>ep.ipv4_nets | ep.ipv6_nets\<close>.\<close>

definition set_union :: "ip_network list \<Rightarrow> ip_network list \<Rightarrow> ip_network list" where
  "set_union a b = foldl set_add a b"

text \<open>
  The loop of \<^verbatim>\<open>get_hosts\<close> over the leaves: the exception that ended it, if any, and
  \<^verbatim>\<open>hosts\<close> as the loop left it.
\<close>

fun hosts_loop ::
  "netaddr \<Rightarrow> hosts_dict \<Rightarrow> (string \<times> etcd_value option) list \<Rightarrow> error option \<times> hosts_dict" where
  "hosts_loop N hosts [] = (None, hosts)"
| "hosts_loop N hosts (child # rest) =
     (let packed = split CHR ''/'' (fst child) in
      if 4 < length packed \<and> length packed < 9 then
        (let host = packed ! 3 in
         case vivi_get hosts host of
           (v, hosts') \<Rightarrow>
             hosts_loop N (if v = [] then AList.update host [] hosts' else hosts') rest)
      else if length packed = 9 then
        (let host = packed ! 3; container_type = packed ! 5; container_id = packed ! 6;
             endpoint_id = packed ! 8 in
         case from_json_value N endpoint_id (snd child) of
           Inl e \<Rightarrow> (Some e, hosts)
         | Inr ep \<Rightarrow>
             hosts_loop N
               (vivi_at host (vivi_at container_type (vivi_at container_id (vivi_at endpoint_id
                  (\<lambda>ep_dict.
                     AList.update ''state'' (PyStr (state ep))
                       (AList.update ''mac'' (PyStr (mac ep))
                          (AList.update ''addrs''
                             (PyList (map (str_network N)
                                (set_union (ipv4_nets ep) (ipv6_nets ep))))
                             ep_dict))))))
                  hosts)
               rest)
      else hosts_loop N hosts rest)"



subsection \<open>Next hops\<close>



section \<open>Stores of the examples\<close>

definition empty_store :: store where
  "empty_store = \<lparr> root = Dir [], index = 0 \<rparr>"


text \<open>The host \<^verbatim>\<open>h1\<close> with one container \<^verbatim>\<open>c1\<close> and its endpoint \<^verbatim>\<open>e1\<close>.\<close>

definition endpoint_store :: "json_endpoint \<Rightarrow> store" where
  "endpoint_store p =
     \<lparr> root =
         Dir [(''calico'', Dir [(''host'', Dir [(''h1'',
           Dir [(''workload'', Dir [(''docker'', Dir [(''c1'',
             Dir [(''endpoint'', Dir [(''e1'', File (EndpointJson p))])])])])])])])],
       index = 5 \<rparr>"

text \<open>The listings of the hosts root that the tree decoding is about.\<close>

definition marker_leaves :: "(string \<times> etcd_value option) list" where
  "marker_leaves =
     [(''/calico/host/h1/workload'', None), (''/calico/host/h1/workload/docker'', None)]"


text \<open>
  A payload that another writer left: its own interface name, a bare address, and a
  gateway.
\<close>

definition foreign_payload :: json_endpoint where
  "foreign_payload =
     \<lparr> j_state = ''active'', j_name = ''eth0'', j_mac = ''aa:bb:cc:dd:ee:ff'',
       j_profile_id = None, j_ipv4_nets = [''10.0.0.1''], j_ipv6_nets = [],
       j_ipv4_gateway = Some ''10.0.0.2'', j_ipv6_gateway = None \<rparr>"

text \<open>
  The entries of the pool directory that stand for a pool: the children whose value
  reads as a network equal to the normalized pool.
\<close>

definition is_pool_entry :: "netaddr \<Rightarrow> ip_network \<Rightarrow> string \<times> etcd_value option \<Rightarrow> bool" where
  "is_pool_entry N pool kv =
     (value_bool (snd kv) \<and>
      (case IPNetwork_value N (snd kv) of Inl e \<Rightarrow> False | Inr n \<Rightarrow> net_eq (cidr pool) n))"

definition pool_entries ::
  "netaddr \<Rightarrow> store \<Rightarrow> string \<Rightarrow> ip_network \<Rightarrow> (string \<times> etcd_value option) list" where
  "pool_entries N s version pool =
     (case etcd_read s (IP_POOLS_PATH version) False of
        Inl e \<Rightarrow> []
      | Inr r \<Rightarrow> filter (is_pool_entry N pool) (leaves r))"

text \<open>The leaf that a child of a directory gives in a read that is not recursive.\<close>

definition child_leaf :: "string \<Rightarrow> string \<times> node \<Rightarrow> string \<times> etcd_value option" where
  "child_leaf k wc =
     (k @ ''/'' @ fst wc, case snd wc of File v \<Rightarrow> Some v | Dir ds \<Rightarrow> None)"

text \<open>The store after \<^verbatim>\<open>10.0.0.0/8\<close> was added to the empty store as an IPv4 pool.\<close>

definition pool_store :: store where
  "pool_store =
     \<lparr> root =
         Dir [(''calico'', Dir [(''ipam'', Dir [(''v4'', Dir [(''pool'',
           Dir [(''0'', File (Text ''10.0.0.0/8''))])])])])],
       index = 1 \<rparr>"

text \<open>The children of the pool directory of a version, none when it is absent.\<close>

definition pool_children :: "store \<Rightarrow> string \<Rightarrow> (string \<times> node) list" where
  "pool_children s version =
     (case lookup (path_of (IP_POOLS_PATH version)) (root s) of
        Some (Dir cs) \<Rightarrow> cs
      | _ \<Rightarrow> [])"


section \<open>Keys and trees\<close>

lemma split_not_Nil: "split sep s \<noteq> []"
  by (induction s) (auto split: list.splits)

lemma split_append: "split sep (a @ sep # b) = split sep a @ split sep b"
proof (induction a)
  case Nil
  then show ?case by simp
next
  case (Cons x a)
  show ?case
  proof (cases "x = sep")
    case True
    with Cons show ?thesis by simp
  next
    case False
    obtain w ws where s: "split sep a = w # ws"
      using split_not_Nil[of sep a] by (cases "split sep a") auto
    with False Cons show ?thesis by simp
  qed
qed

lemma split_no_sep: "sep \<notin> set w \<Longrightarrow> split sep w = [w]"
  by (induction w) auto

lemma path_of_append: "path_of (a @ CHR ''/'' # b) = path_of a @ path_of b"
  by (simp add: path_of_def split_append)

lemma put_lookup: "put p new n = Inr n' \<Longrightarrow> lookup p n' = Some new"
proof (induction p arbitrary: n n')
  case Nil
  then show ?case by simp
next
  case (Cons w p)
  then show ?case
    by (auto split: node.splits sum.splits simp: update_conv')
qed


lemma dirs_to_empty: "dirs_to p (Dir [])"
  by (cases p) auto

lemma put_ok: "dirs_to p n \<Longrightarrow> \<exists>n'. put p new n = Inr n'"
proof (induction p arbitrary: n)
  case Nil
  then show ?case by simp
next
  case (Cons w p)
  then obtain cs where n: "n = Dir cs" by (cases n) auto
  have "dirs_to p (case map_of cs w of None \<Rightarrow> Dir [] | Some c \<Rightarrow> c)"
    using Cons.prems n by (auto split: option.splits simp: dirs_to_empty)
  from Cons.IH[OF this] n show ?case by auto
qed




section \<open>Creating a profile\<close>





lemma etcd_write_put:
  "etcd_write s key v = Inr s' \<Longrightarrow> put (path_of key) (File v) (root s) = Inr (root s')"
  by (auto simp: etcd_write_def split: option.splits node.splits sum.splits)







section \<open>The endpoint codec\<close>

lemma net_eq_sym: "net_eq a b = net_eq b a"
  by (auto simp: net_eq_def)

lemma py_set_snoc: "py_set (acc @ [n]) = (py_set acc \<and> \<not> list_ex (\<lambda>m. net_eq m n) acc)"
  by (induction acc) (auto simp: list_ex_iff net_eq_sym)

lemma py_set_prefix: "py_set (acc @ nets) \<Longrightarrow> py_set acc"
  by (induction acc) (auto simp: list_ex_iff)

lemma add_nets_str:
  "py_set (acc @ nets) \<Longrightarrow>
   list_all (\<lambda>n. IPNetwork N (str_network N n) = Inr n) nets \<Longrightarrow>
   add_nets N acc (map (str_network N) nets) = Inr (acc @ nets)"
proof (induction nets arbitrary: acc)
  case Nil
  then show ?case by simp
next
  case (Cons n nets)
  have ps: "py_set ((acc @ [n]) @ nets)" using Cons.prems(1) by simp
  then have "py_set (acc @ [n])" by (rule py_set_prefix)
  then have "set_add acc n = acc @ [n]"
    by (simp add: py_set_snoc set_add_def)
  with Cons.IH[OF ps] Cons.prems(2) show ?case by simp
qed

lemma read_gateway_str:
  "gateway_round_trips N g \<Longrightarrow>
   read_gateway N
     (case g of None \<Rightarrow> None
      | Some gw \<Rightarrow> if addr_bool gw then Some (str_address N gw) else None) = Inr g"
  by (cases g) (auto simp: read_gateway_def gateway_round_trips_def)

text \<open>
  The round trip holds for the endpoints whose gateways, when set, are addresses other
  than zero (and whose addresses the library reads back from their own text).
\<close>

lemma round_trip_nonzero_gateways:
  assumes "py_set (ipv4_nets e)" and "py_set (ipv6_nets e)"
    and "list_all (\<lambda>n. IPNetwork N (str_network N n) = Inr n) (ipv4_nets e)"
    and "list_all (\<lambda>n. IPNetwork N (str_network N n) = Inr n) (ipv6_nets e)"
    and "gateway_round_trips N (ipv4_gateway e)"
    and "gateway_round_trips N (ipv6_gateway e)"
  shows "from_json N (ep_id e) (to_json N e) = Inr e"
proof -
  have 4: "add_nets N [] (map (str_network N) (ipv4_nets e)) = Inr (ipv4_nets e)"
    using add_nets_str[of "[]" "ipv4_nets e" N] assms(1,3) by simp
  have 6: "add_nets N [] (map (str_network N) (ipv6_nets e)) = Inr (ipv6_nets e)"
    using add_nets_str[of "[]" "ipv6_nets e" N] assms(2,4) by simp
  show ?thesis
    by (simp add: from_json_def to_json_def 4 6 read_gateway_str[OF assms(5)]
        read_gateway_str[OF assms(6)])
qed

text \<open>
  C1. The round trip fails on an endpoint whose IPv4 gateway is the address
  \<^verbatim>\<open>0.0.0.0\<close>: \<^verbatim>\<open>to_json\<close> tests the gateway for truth, the zero address is false, the
  payload carries \<^verbatim>\<open>null\<close>, and the decoded endpoint has no gateway. Whatever the
  library's text functions are, the decoded endpoint differs from the encoded one.
\<close>

theorem round_trip_zero_gateway:
  "from_json N (ep_id zero_gateway_endpoint) (to_json N zero_gateway_endpoint) =
     Inr (zero_gateway_endpoint\<lparr>ipv4_gateway := None\<rparr>) \<and>
   zero_gateway_endpoint\<lparr>ipv4_gateway := None\<rparr> \<noteq> zero_gateway_endpoint"
  by (simp add: from_json_def to_json_def zero_gateway_endpoint_def read_gateway_def
      addr_bool_def)



lemma ipv4_net_10_0_0_1: "IPNetwork ipv4_text ''10.0.0.1'' = Inr (IPNet 4 167772161 32)"
  by (simp add: ipv4_text_def ipv4_IPNetwork_def parse_quad_def parse_dec_def digit_val_def)





section \<open>Assigning a profile to a workload\<close>

lemma from_json_fields:
  "from_json N i v = Inr ep \<Longrightarrow>
   \<exists>p. v = EndpointJson p \<and> ep_id ep = i \<and> state ep = j_state p \<and> mac ep = j_mac p \<and>
       profile_id ep = j_profile_id p \<and>
       add_nets N [] (j_ipv4_nets p) = Inr (ipv4_nets ep) \<and>
       add_nets N [] (j_ipv6_nets p) = Inr (ipv6_nets ep) \<and>
       read_gateway N (j_ipv4_gateway p) = Inr (ipv4_gateway ep) \<and>
       read_gateway N (j_ipv6_gateway p) = Inr (ipv6_gateway ep)"
  by (auto simp: from_json_def split: etcd_value.splits sum.splits)

lemma shallow_File: "shallow n = File v \<Longrightarrow> n = File v"
  by (cases n) (auto simp: shallow_def)

lemma get_endpoint_file:
  "get_endpoint N s h c i = Inr ep \<Longrightarrow>
   \<exists>v. lookup (path_of (ENDPOINT_PATH h c i)) (root s) = Some (File v) \<and>
       from_json N i v = Inr ep"
  by (auto simp: get_endpoint_def etcd_read_def from_json_value_def res_value_def
      split: option.splits sum.splits node.splits dest: shallow_File)

text \<open>
  The read, the change of the profile and the write back, for either method: the
  payload read decodes to an endpoint, and the payload written is the encoding of
  this endpoint with the new profile.
\<close>

lemma profile_rewritten:
  assumes g: "get_endpoint N s h c i = Inr ep"
    and w: "set_endpoint N s h c (ep\<lparr>profile_id := x\<rparr>) = Inr s'"
  shows "\<exists>p. lookup (path_of (ENDPOINT_PATH h c i)) (root s) = Some (File (EndpointJson p)) \<and>
     from_json N i (EndpointJson p) = Inr ep \<and>
     lookup (path_of (ENDPOINT_PATH h c i)) (root s') =
       Some (File (to_json N (ep\<lparr>profile_id := x\<rparr>)))"
proof -
  from get_endpoint_file[OF g] obtain v where
    v: "lookup (path_of (ENDPOINT_PATH h c i)) (root s) = Some (File v)"
    and d: "from_json N i v = Inr ep" by blast
  from from_json_fields[OF d] obtain p where p: "v = EndpointJson p" and i: "ep_id ep = i"
    by blast
  have "put (path_of (ENDPOINT_PATH h c i)) (File (to_json N (ep\<lparr>profile_id := x\<rparr>))) (root s) =
      Inr (root s')"
    using etcd_write_put[of s "ENDPOINT_PATH h c i" "to_json N (ep\<lparr>profile_id := x\<rparr>)" s'] w i
    by (simp add: set_endpoint_def)
  from put_lookup[OF this] v d p show ?thesis by simp
qed

text \<open>The fields of the payload that \<^verbatim>\<open>to_json\<close> makes of an endpoint.\<close>

lemma to_json_fields:
  "\<exists>q. to_json N ep = EndpointJson q \<and>
     j_state q = state ep \<and> j_name q = IF_PREFIX @ take 11 (ep_id ep) \<and> j_mac q = mac ep \<and>
     j_profile_id q = profile_id ep \<and>
     j_ipv4_nets q = map (str_network N) (ipv4_nets ep) \<and>
     j_ipv6_nets q = map (str_network N) (ipv6_nets ep) \<and>
     ((case ipv4_gateway ep of None \<Rightarrow> True | Some gw \<Rightarrow> addr_bool gw) \<longrightarrow>
        j_ipv4_gateway q = map_option (str_address N) (ipv4_gateway ep)) \<and>
     ((case ipv6_gateway ep of None \<Rightarrow> True | Some gw \<Rightarrow> addr_bool gw) \<longrightarrow>
        j_ipv6_gateway q = map_option (str_address N) (ipv6_gateway ep))"
  by (simp add: to_json_def split: option.splits)

text \<open>
  C10, as the code has it. When \<^verbatim>\<open>add_workload_to_group\<close> or
  \<^verbatim>\<open>remove_workload_from_group\<close> returns, the payload \<^verbatim>\<open>p\<close> that was read decodes to an
  endpoint \<^verbatim>\<open>ep\<close>, and the payload \<^verbatim>\<open>q\<close> written back has the new profile, the state and
  the MAC of \<^verbatim>\<open>p\<close>, the name made of the prefix and the first 11 characters of the
  endpoint's id, and the networks of \<^verbatim>\<open>ep\<close> printed anew. A gateway of \<^verbatim>\<open>ep\<close> that is
  absent or has a non-zero address is written as it is printed, an absent one as
  \<^verbatim>\<open>null\<close>; nothing is stated of a gateway whose address is zero.
\<close>

theorem profile_assignment_frame:
  "(add_workload_to_group N s h g c = (Inr (), s1) \<longrightarrow>
      (\<exists>i p ep q. get_ep_id_from_cont s h c = Inr i \<and>
         lookup (path_of (ENDPOINT_PATH h c i)) (root s) = Some (File (EndpointJson p)) \<and>
         from_json N i (EndpointJson p) = Inr ep \<and>
         lookup (path_of (ENDPOINT_PATH h c i)) (root s1) = Some (File (EndpointJson q)) \<and>
         j_profile_id q = Some g \<and>
         j_state q = j_state p \<and> j_mac q = j_mac p \<and>
         j_name q = IF_PREFIX @ take 11 i \<and>
         j_ipv4_nets q = map (str_network N) (ipv4_nets ep) \<and>
         j_ipv6_nets q = map (str_network N) (ipv6_nets ep) \<and>
         ((case ipv4_gateway ep of None \<Rightarrow> True | Some gw \<Rightarrow> addr_bool gw) \<longrightarrow>
            j_ipv4_gateway q = map_option (str_address N) (ipv4_gateway ep)) \<and>
         ((case ipv6_gateway ep of None \<Rightarrow> True | Some gw \<Rightarrow> addr_bool gw) \<longrightarrow>
            j_ipv6_gateway q = map_option (str_address N) (ipv6_gateway ep)))) \<and>
   (remove_workload_from_group N s h c = (Inr (), s2) \<longrightarrow>
      (\<exists>i p ep q. get_ep_id_from_cont s h c = Inr i \<and>
         lookup (path_of (ENDPOINT_PATH h c i)) (root s) = Some (File (EndpointJson p)) \<and>
         from_json N i (EndpointJson p) = Inr ep \<and>
         lookup (path_of (ENDPOINT_PATH h c i)) (root s2) = Some (File (EndpointJson q)) \<and>
         j_profile_id q = None \<and>
         j_state q = j_state p \<and> j_mac q = j_mac p \<and>
         j_name q = IF_PREFIX @ take 11 i \<and>
         j_ipv4_nets q = map (str_network N) (ipv4_nets ep) \<and>
         j_ipv6_nets q = map (str_network N) (ipv6_nets ep) \<and>
         ((case ipv4_gateway ep of None \<Rightarrow> True | Some gw \<Rightarrow> addr_bool gw) \<longrightarrow>
            j_ipv4_gateway q = map_option (str_address N) (ipv4_gateway ep)) \<and>
         ((case ipv6_gateway ep of None \<Rightarrow> True | Some gw \<Rightarrow> addr_bool gw) \<longrightarrow>
            j_ipv6_gateway q = map_option (str_address N) (ipv6_gateway ep))))"
proof (intro conjI impI)
  assume a: "add_workload_to_group N s h g c = (Inr (), s1)"
  then obtain i ep where i: "get_ep_id_from_cont s h c = Inr i"
    and e: "get_endpoint N s h c i = Inr ep"
    and w: "set_endpoint N s h c (ep\<lparr>profile_id := Some g\<rparr>) = Inr s1"
    by (auto simp: add_workload_to_group_def split: sum.splits)
  from profile_rewritten[OF e w] obtain p where
    p: "lookup (path_of (ENDPOINT_PATH h c i)) (root s) = Some (File (EndpointJson p))"
    and d: "from_json N i (EndpointJson p) = Inr ep"
    and l: "lookup (path_of (ENDPOINT_PATH h c i)) (root s1) =
       Some (File (to_json N (ep\<lparr>profile_id := Some g\<rparr>)))" by blast
  from from_json_fields[OF d] have f: "ep_id ep = i" "state ep = j_state p" "mac ep = j_mac p"
    by auto
  from to_json_fields[of N "ep\<lparr>profile_id := Some g\<rparr>"] obtain q where
    q: "to_json N (ep\<lparr>profile_id := Some g\<rparr>) = EndpointJson q"
    and "j_profile_id q = Some g" "j_state q = j_state p" "j_mac q = j_mac p"
      "j_name q = IF_PREFIX @ take 11 i"
      "j_ipv4_nets q = map (str_network N) (ipv4_nets ep)"
      "j_ipv6_nets q = map (str_network N) (ipv6_nets ep)"
      "(case ipv4_gateway ep of None \<Rightarrow> True | Some gw \<Rightarrow> addr_bool gw) \<longrightarrow>
         j_ipv4_gateway q = map_option (str_address N) (ipv4_gateway ep)"
      "(case ipv6_gateway ep of None \<Rightarrow> True | Some gw \<Rightarrow> addr_bool gw) \<longrightarrow>
         j_ipv6_gateway q = map_option (str_address N) (ipv6_gateway ep)"
    using f by auto
  with i p d l show "\<exists>i p ep q. get_ep_id_from_cont s h c = Inr i \<and>
         lookup (path_of (ENDPOINT_PATH h c i)) (root s) = Some (File (EndpointJson p)) \<and>
         from_json N i (EndpointJson p) = Inr ep \<and>
         lookup (path_of (ENDPOINT_PATH h c i)) (root s1) = Some (File (EndpointJson q)) \<and>
         j_profile_id q = Some g \<and>
         j_state q = j_state p \<and> j_mac q = j_mac p \<and>
         j_name q = IF_PREFIX @ take 11 i \<and>
         j_ipv4_nets q = map (str_network N) (ipv4_nets ep) \<and>
         j_ipv6_nets q = map (str_network N) (ipv6_nets ep) \<and>
         ((case ipv4_gateway ep of None \<Rightarrow> True | Some gw \<Rightarrow> addr_bool gw) \<longrightarrow>
            j_ipv4_gateway q = map_option (str_address N) (ipv4_gateway ep)) \<and>
         ((case ipv6_gateway ep of None \<Rightarrow> True | Some gw \<Rightarrow> addr_bool gw) \<longrightarrow>
            j_ipv6_gateway q = map_option (str_address N) (ipv6_gateway ep))"
    by (intro exI[of _ i] exI[of _ p] exI[of _ ep] exI[of _ q]) simp
next
  assume a: "remove_workload_from_group N s h c = (Inr (), s2)"
  then obtain i ep where i: "get_ep_id_from_cont s h c = Inr i"
    and e: "get_endpoint N s h c i = Inr ep"
    and w: "set_endpoint N s h c (ep\<lparr>profile_id := None\<rparr>) = Inr s2"
    by (auto simp: remove_workload_from_group_def split: sum.splits)
  from profile_rewritten[OF e w] obtain p where
    p: "lookup (path_of (ENDPOINT_PATH h c i)) (root s) = Some (File (EndpointJson p))"
    and d: "from_json N i (EndpointJson p) = Inr ep"
    and l: "lookup (path_of (ENDPOINT_PATH h c i)) (root s2) =
       Some (File (to_json N (ep\<lparr>profile_id := None\<rparr>)))" by blast
  from from_json_fields[OF d] have f: "ep_id ep = i" "state ep = j_state p" "mac ep = j_mac p"
    by auto
  from to_json_fields[of N "ep\<lparr>profile_id := None\<rparr>"] obtain q where
    q: "to_json N (ep\<lparr>profile_id := None\<rparr>) = EndpointJson q"
    and "j_profile_id q = None" "j_state q = j_state p" "j_mac q = j_mac p"
      "j_name q = IF_PREFIX @ take 11 i"
      "j_ipv4_nets q = map (str_network N) (ipv4_nets ep)"
      "j_ipv6_nets q = map (str_network N) (ipv6_nets ep)"
      "(case ipv4_gateway ep of None \<Rightarrow> True | Some gw \<Rightarrow> addr_bool gw) \<longrightarrow>
         j_ipv4_gateway q = map_option (str_address N) (ipv4_gateway ep)"
      "(case ipv6_gateway ep of None \<Rightarrow> True | Some gw \<Rightarrow> addr_bool gw) \<longrightarrow>
         j_ipv6_gateway q = map_option (str_address N) (ipv6_gateway ep)"
    using f by auto
  with i p d l show "\<exists>i p ep q. get_ep_id_from_cont s h c = Inr i \<and>
         lookup (path_of (ENDPOINT_PATH h c i)) (root s) = Some (File (EndpointJson p)) \<and>
         from_json N i (EndpointJson p) = Inr ep \<and>
         lookup (path_of (ENDPOINT_PATH h c i)) (root s2) = Some (File (EndpointJson q)) \<and>
         j_profile_id q = None \<and>
         j_state q = j_state p \<and> j_mac q = j_mac p \<and>
         j_name q = IF_PREFIX @ take 11 i \<and>
         j_ipv4_nets q = map (str_network N) (ipv4_nets ep) \<and>
         j_ipv6_nets q = map (str_network N) (ipv6_nets ep) \<and>
         ((case ipv4_gateway ep of None \<Rightarrow> True | Some gw \<Rightarrow> addr_bool gw) \<longrightarrow>
            j_ipv4_gateway q = map_option (str_address N) (ipv4_gateway ep)) \<and>
         ((case ipv6_gateway ep of None \<Rightarrow> True | Some gw \<Rightarrow> addr_bool gw) \<longrightarrow>
            j_ipv6_gateway q = map_option (str_address N) (ipv6_gateway ep))"
    by (intro exI[of _ i] exI[of _ p] exI[of _ ep] exI[of _ q]) simp
qed

lemma ep_id_e1: "get_ep_id_from_cont (endpoint_store p) ''h1'' ''c1'' = Inr ''e1''"
  by (simp add: get_ep_id_from_cont_def etcd_read_def LOCAL_ENDPOINTS_PATH_def HOST_PATH_def
      HOSTS_PATH_def path_of_def endpoint_store_def key_of_def shallow_def leaves_def
      eval_nat_numeral)

lemma e1_path:
  "path_of (ENDPOINT_PATH ''h1'' ''c1'' ''e1'') =
     [''calico'', ''host'', ''h1'', ''workload'', ''docker'', ''c1'', ''endpoint'', ''e1'']"
  by (simp add: ENDPOINT_PATH_def LOCAL_ENDPOINTS_PATH_def HOST_PATH_def HOSTS_PATH_def
      path_of_def)

lemma ipv4_10_0_0_2: "IPAddress ipv4_text ''10.0.0.2'' = Inr (IPAddr 4 167772162)"
  by (simp add: ipv4_text_def ipv4_IPAddress_def parse_quad_def parse_dec_def digit_val_def)

lemma foreign_decoded:
  "from_json ipv4_text ''e1'' (EndpointJson foreign_payload) =
     Inr \<lparr> ep_id = ''e1'', state = ''active'', mac = ''aa:bb:cc:dd:ee:ff'',
           profile_id = None, ipv4_nets = [IPNet 4 167772161 32], ipv6_nets = [],
           ipv4_gateway = Some (IPAddr 4 167772162), ipv6_gateway = None \<rparr>"
  by (simp add: from_json_def foreign_payload_def ipv4_net_10_0_0_1 set_add_def read_gateway_def
      ipv4_10_0_0_2)

lemma str_10_0_0_1_32: "str_network ipv4_text (IPNet 4 167772161 32) = ''10.0.0.1/32''"
  by (simp add: ipv4_text_def show_quad_def show_dec_def digit_char_def)

lemma str_10_0_0_2: "str_address ipv4_text (IPAddr 4 167772162) = ''10.0.0.2''"
  by (simp add: ipv4_text_def show_quad_def show_dec_def digit_char_def)

lemma get_e1:
  "get_endpoint ipv4_text (endpoint_store foreign_payload) ''h1'' ''c1'' ''e1'' =
     from_json ipv4_text ''e1'' (EndpointJson foreign_payload)"
  unfolding get_endpoint_def etcd_read_def e1_path
  by (simp add: endpoint_store_def shallow_def res_value_def from_json_value_def)

lemma set_e1:
  "set_endpoint ipv4_text (endpoint_store foreign_payload) ''h1'' ''c1''
     \<lparr> ep_id = ''e1'', state = ''active'', mac = ''aa:bb:cc:dd:ee:ff'',
       profile_id = x, ipv4_nets = [IPNet 4 167772161 32], ipv6_nets = [],
       ipv4_gateway = Some (IPAddr 4 167772162), ipv6_gateway = None \<rparr> =
   Inr (endpoint_store (foreign_payload\<lparr>j_name := ''calie1'', j_profile_id := x,
        j_ipv4_nets := [''10.0.0.1/32'']\<rparr>)\<lparr>index := 6\<rparr>)"
  unfolding set_endpoint_def etcd_write_def
  by (simp add: e1_path to_json_def str_10_0_0_1_32 str_10_0_0_2 addr_bool_def IF_PREFIX_def
      endpoint_store_def foreign_payload_def)

lemma add_eval:
  "add_workload_to_group ipv4_text (endpoint_store foreign_payload) ''h1'' ''G'' ''c1'' =
     (Inr (), endpoint_store (foreign_payload\<lparr>j_name := ''calie1'', j_profile_id := Some ''G'',
        j_ipv4_nets := [''10.0.0.1/32'']\<rparr>)\<lparr>index := 6\<rparr>)"
  by (simp add: add_workload_to_group_def ep_id_e1 get_e1 foreign_decoded set_e1)

lemma remove_eval:
  "remove_workload_from_group ipv4_text (endpoint_store foreign_payload) ''h1'' ''c1'' =
     (Inr (), endpoint_store (foreign_payload\<lparr>j_name := ''calie1'', j_profile_id := None,
        j_ipv4_nets := [''10.0.0.1/32'']\<rparr>)\<lparr>index := 6\<rparr>)"
  by (simp add: remove_workload_from_group_def ep_id_e1 get_e1 foreign_decoded set_e1)

lemma e1_stored:
  "lookup (path_of (ENDPOINT_PATH ''h1'' ''c1'' ''e1'')) (root (endpoint_store p)) =
     Some (File (EndpointJson p))"
  by (simp add: e1_path endpoint_store_def)

text \<open>
  Both methods on the endpoint \<^verbatim>\<open>e1\<close> of the container \<^verbatim>\<open>c1\<close>, stored with the gateway
  \<^verbatim>\<open>10.0.0.2\<close>: the payload written back has this gateway, the state and the MAC that
  were stored, the derived name and the network with its prefix length.
\<close>

theorem profile_assignment_frame_witness:
  "(\<exists>s1 q. add_workload_to_group ipv4_text (endpoint_store foreign_payload) ''h1'' ''G'' ''c1'' =
       (Inr (), s1) \<and>
     lookup (path_of (ENDPOINT_PATH ''h1'' ''c1'' ''e1'')) (root s1) =
       Some (File (EndpointJson q)) \<and>
     j_profile_id q = Some ''G'' \<and> j_state q = ''active'' \<and> j_mac q = ''aa:bb:cc:dd:ee:ff'' \<and>
     j_name q = ''calie1'' \<and> j_ipv4_nets q = [''10.0.0.1/32''] \<and> j_ipv6_nets q = [] \<and>
     j_ipv4_gateway q = Some ''10.0.0.2'' \<and> j_ipv6_gateway q = None) \<and>
   (\<exists>s2 q. remove_workload_from_group ipv4_text (endpoint_store foreign_payload) ''h1'' ''c1'' =
       (Inr (), s2) \<and>
     lookup (path_of (ENDPOINT_PATH ''h1'' ''c1'' ''e1'')) (root s2) =
       Some (File (EndpointJson q)) \<and>
     j_profile_id q = None \<and> j_state q = ''active'' \<and> j_mac q = ''aa:bb:cc:dd:ee:ff'' \<and>
     j_name q = ''calie1'' \<and> j_ipv4_nets q = [''10.0.0.1/32''] \<and> j_ipv6_nets q = [] \<and>
     j_ipv4_gateway q = Some ''10.0.0.2'' \<and> j_ipv6_gateway q = None)"
proof -
  let ?s = "endpoint_store foreign_payload"
  let ?ep = "\<lparr> ep_id = ''e1'', state = ''active'', mac = ''aa:bb:cc:dd:ee:ff'',
           profile_id = None, ipv4_nets = [IPNet 4 167772161 32], ipv6_nets = [],
           ipv4_gateway = Some (IPAddr 4 167772162), ipv6_gateway = None \<rparr>"
  obtain s1 where a: "add_workload_to_group ipv4_text ?s ''h1'' ''G'' ''c1'' = (Inr (), s1)"
    using add_eval by blast
  obtain s2 where r: "remove_workload_from_group ipv4_text ?s ''h1'' ''c1'' = (Inr (), s2)"
    using remove_eval by blast
  note t = profile_assignment_frame[where N = ipv4_text and s = ?s and h = "''h1''"
      and g = "''G''" and c = "''c1''" and ?s1.0 = s1 and ?s2.0 = s2]
  have name: "IF_PREFIX @ take 11 ''e1'' = ''calie1''" by (simp add: IF_PREFIX_def)
  have fp: "j_state foreign_payload = ''active''" "j_mac foreign_payload = ''aa:bb:cc:dd:ee:ff''"
    by (simp_all add: foreign_payload_def)
  from t a obtain i p ep q where
    1: "get_ep_id_from_cont ?s ''h1'' ''c1'' = Inr i"
    "lookup (path_of (ENDPOINT_PATH ''h1'' ''c1'' i)) (root ?s) = Some (File (EndpointJson p))"
    "from_json ipv4_text i (EndpointJson p) = Inr ep"
    and 2: "lookup (path_of (ENDPOINT_PATH ''h1'' ''c1'' i)) (root s1) =
      Some (File (EndpointJson q))"
    "j_profile_id q = Some ''G''" "j_state q = j_state p" "j_mac q = j_mac p"
    "j_name q = IF_PREFIX @ take 11 i"
    "j_ipv4_nets q = map (str_network ipv4_text) (ipv4_nets ep)"
    "j_ipv6_nets q = map (str_network ipv4_text) (ipv6_nets ep)"
    "(case ipv4_gateway ep of None \<Rightarrow> True | Some gw \<Rightarrow> addr_bool gw) \<longrightarrow>
       j_ipv4_gateway q = map_option (str_address ipv4_text) (ipv4_gateway ep)"
    "(case ipv6_gateway ep of None \<Rightarrow> True | Some gw \<Rightarrow> addr_bool gw) \<longrightarrow>
       j_ipv6_gateway q = map_option (str_address ipv4_text) (ipv6_gateway ep)"
    by blast
  from 1 have i: "i = ''e1''" by (simp add: ep_id_e1)
  with 1 have p: "p = foreign_payload" by (simp add: e1_stored)
  with 1 i have ep: "ep = ?ep" by (simp add: foreign_decoded)
  have A: "lookup (path_of (ENDPOINT_PATH ''h1'' ''c1'' ''e1'')) (root s1) =
       Some (File (EndpointJson q)) \<and>
     j_profile_id q = Some ''G'' \<and> j_state q = ''active'' \<and> j_mac q = ''aa:bb:cc:dd:ee:ff'' \<and>
     j_name q = ''calie1'' \<and> j_ipv4_nets q = [''10.0.0.1/32''] \<and> j_ipv6_nets q = [] \<and>
     j_ipv4_gateway q = Some ''10.0.0.2'' \<and> j_ipv6_gateway q = None"
    using 2 i p ep name fp by (simp add: str_10_0_0_1_32 str_10_0_0_2 addr_bool_def)
  from t r obtain i' p' ep' q' where
    3: "get_ep_id_from_cont ?s ''h1'' ''c1'' = Inr i'"
    "lookup (path_of (ENDPOINT_PATH ''h1'' ''c1'' i')) (root ?s) = Some (File (EndpointJson p'))"
    "from_json ipv4_text i' (EndpointJson p') = Inr ep'"
    and 4: "lookup (path_of (ENDPOINT_PATH ''h1'' ''c1'' i')) (root s2) =
      Some (File (EndpointJson q'))"
    "j_profile_id q' = None" "j_state q' = j_state p'" "j_mac q' = j_mac p'"
    "j_name q' = IF_PREFIX @ take 11 i'"
    "j_ipv4_nets q' = map (str_network ipv4_text) (ipv4_nets ep')"
    "j_ipv6_nets q' = map (str_network ipv4_text) (ipv6_nets ep')"
    "(case ipv4_gateway ep' of None \<Rightarrow> True | Some gw \<Rightarrow> addr_bool gw) \<longrightarrow>
       j_ipv4_gateway q' = map_option (str_address ipv4_text) (ipv4_gateway ep')"
    "(case ipv6_gateway ep' of None \<Rightarrow> True | Some gw \<Rightarrow> addr_bool gw) \<longrightarrow>
       j_ipv6_gateway q' = map_option (str_address ipv4_text) (ipv6_gateway ep')"
    by blast
  from 3 have i': "i' = ''e1''" by (simp add: ep_id_e1)
  with 3 have p': "p' = foreign_payload" by (simp add: e1_stored)
  with 3 i' have ep': "ep' = ?ep" by (simp add: foreign_decoded)
  have B: "lookup (path_of (ENDPOINT_PATH ''h1'' ''c1'' ''e1'')) (root s2) =
       Some (File (EndpointJson q')) \<and>
     j_profile_id q' = None \<and> j_state q' = ''active'' \<and> j_mac q' = ''aa:bb:cc:dd:ee:ff'' \<and>
     j_name q' = ''calie1'' \<and> j_ipv4_nets q' = [''10.0.0.1/32''] \<and> j_ipv6_nets q' = [] \<and>
     j_ipv4_gateway q' = Some ''10.0.0.2'' \<and> j_ipv6_gateway q' = None"
    using 4 i' p' ep' name fp by (simp add: str_10_0_0_1_32 str_10_0_0_2 addr_bool_def)
  from a A r B show ?thesis by blast
qed

text \<open>
  The claim C10 fails on the endpoint whose stored payload has the name \<^verbatim>\<open>eth0\<close> and the
  network \<^verbatim>\<open>10.0.0.1\<close>: the payload written back has the name \<^verbatim>\<open>calie1\<close> and the network
  \<^verbatim>\<open>10.0.0.1/32\<close>.
\<close>

theorem profile_assignment_rewrites_payload:
  "lookup (path_of (ENDPOINT_PATH ''h1'' ''c1'' ''e1'')) (root (endpoint_store foreign_payload)) =
     Some (File (EndpointJson foreign_payload)) \<and>
   j_name foreign_payload = ''eth0'' \<and> j_ipv4_nets foreign_payload = [''10.0.0.1''] \<and>
   add_workload_to_group ipv4_text (endpoint_store foreign_payload) ''h1'' ''G'' ''c1'' =
     (Inr (), endpoint_store (foreign_payload\<lparr>j_name := ''calie1'', j_profile_id := Some ''G'',
        j_ipv4_nets := [''10.0.0.1/32'']\<rparr>)\<lparr>index := 6\<rparr>)"
  by (simp add: add_eval e1_path) (simp add: endpoint_store_def foreign_payload_def)


section \<open>Deleting a profile\<close>

text \<open>The sibling \<^verbatim>\<open>remove_host\<close> absorbs the missing key.\<close>

lemma remove_host_absent:
  "lookup (path_of (HOST_PATH hostname)) (root s) = None \<Longrightarrow>
   remove_host s hostname = (Inr (), s)"
  by (simp add: remove_host_def etcd_delete_recursive_def)

text \<open>
  C2. On a store without the profile's subtree, \<^verbatim>\<open>delete_group\<close> does not return: the
  store's not-found error leaves it, and the store is as it was.
\<close>

theorem delete_group_absent_raises:
  "lookup (path_of (PROFILE_PATH name)) (root s) = None \<Longrightarrow>
   delete_group s name = (Inl EtcdKeyNotFound, s)"
  by (simp add: delete_group_def etcd_delete_recursive_def)

lemma nosuch_absent: "lookup (path_of (PROFILE_PATH ''nosuch'')) (root empty_store) = None"
  by (simp add: PROFILE_PATH_def PROFILES_PATH_def path_of_def empty_store_def)

theorem delete_group_absent_raises_witness:
  "lookup (path_of (PROFILE_PATH ''nosuch'')) (root empty_store) = None \<and>
   delete_group empty_store ''nosuch'' = (Inl EtcdKeyNotFound, empty_store)"
  using delete_group_absent_raises[OF nosuch_absent] nosuch_absent by simp


section \<open>Next hops\<close>








section \<open>The tree of hosts\<close>

lemma marker_leaves_hosts: "hosts_loop N [] marker_leaves = (None, [(''h1'', [])])"
  by (simp add: marker_leaves_def vivi_get_def)





section \<open>IP pools\<close>

lemma children_leaves_shallow:
  "children_leaves k (map (\<lambda>(w, c). (w, case c of File v \<Rightarrow> File v | Dir ds \<Rightarrow> Dir [])) cs) =
     map (child_leaf k) cs"
  by (induction cs) (auto simp: child_leaf_def split: node.splits)

lemma leaves_read:
  assumes "etcd_read s key False = Inr r"
  shows "\<exists>n. lookup (path_of key) (root s) = Some n \<and>
     leaves r =
       (case n of
          File v \<Rightarrow> [(key_of (path_of key), Some v)]
        | Dir cs \<Rightarrow>
            if cs = [] then [(key_of (path_of key), None)]
            else map (child_leaf (key_of (path_of key))) cs)"
  using assms
  by (auto simp: etcd_read_def leaves_def shallow_def children_leaves_shallow
      split: option.splits node.splits)

lemma pools_of_append:
  "pools_of N acc (xs @ ys) =
     (case pools_of N acc xs of Inl e \<Rightarrow> Inl e | Inr acc' \<Rightarrow> pools_of N acc' ys)"
  by (induction xs arbitrary: acc) (auto split: sum.splits)

lemma dict_set_values: "(a, x) \<in> set (dict_set d k v) \<Longrightarrow> x = v \<or> x \<in> snd ` set d"
  by (induction d) (force split: if_splits)+

lemma dict_get_value: "dict_get d k = Some v \<Longrightarrow> v \<in> snd ` set d"
  by (induction d) (auto split: if_splits)

lemma pools_of_values:
  "pools_of N acc xs = Inr d \<Longrightarrow> key \<in> snd ` set d \<Longrightarrow>
   key \<in> snd ` set acc \<or>
   (\<exists>t. (key, Some (Text t)) \<in> set xs \<and> t \<noteq> [])"
proof (induction xs arbitrary: acc)
  case Nil
  then show ?case by simp
next
  case (Cons kv xs)
  obtain k v where kv: "kv = (k, v)" by (cases kv)
  show ?case
  proof (cases "value_bool v")
    case False
    with Cons kv show ?thesis by auto
  next
    case True
    with Cons.prems kv obtain pool where
      p: "IPNetwork_value N v = Inr pool" and
      r: "pools_of N (dict_set acc pool k) xs = Inr d"
      by (auto split: sum.splits)
    from p True obtain t where t: "v = Some (Text t)" "t \<noteq> []"
      by (auto simp: IPNetwork_value_def value_bool_def split: option.splits etcd_value.splits)
    from Cons.IH[OF r Cons.prems(2)] show ?thesis
    proof
      assume "key \<in> snd ` set (dict_set acc pool k)"
      then obtain a where "(a, key) \<in> set (dict_set acc pool k)" by auto
      from dict_set_values[OF this] kv t show ?thesis by auto
    next
      assume "\<exists>t. (key, Some (Text t)) \<in> set xs \<and> t \<noteq> []"
      then show ?thesis by auto
    qed
  qed
qed

lemma key_of_snoc: "key_of (p @ [w]) = key_of p @ ''/'' @ w"
  by (simp add: key_of_def)

lemma split_wf: "wf_name w \<Longrightarrow> split CHR ''/'' w = [w]"
  by (simp add: split_no_sep wf_name_def)

lemma path_of_key_of: "list_all wf_name p \<Longrightarrow> path_of (key_of p) = p"
proof (induction p rule: rev_induct)
  case Nil
  then show ?case by (simp add: key_of_def path_of_def)
next
  case (snoc w p)
  have "path_of (key_of (p @ [w])) = path_of (key_of p) @ path_of w"
    using path_of_append[of "key_of p" w] by (simp add: key_of_snoc)
  moreover have "path_of w = [w]" using snoc.prems
    by (simp add: path_of_def split_wf) (simp add: wf_name_def)
  ultimately show ?case using snoc by simp
qed

lemma split_segments: "CHR ''/'' \<notin> set w" if "w \<in> set (split CHR ''/'' s)"
  using that
proof (induction s arbitrary: w)
  case Nil
  then show ?case by simp
next
  case (Cons c s)
  then show ?case
    by (cases "split CHR ''/'' s") (auto split: if_splits)
qed

lemma path_of_wf: "list_all wf_name (path_of s)"
  by (auto simp: path_of_def list_all_iff wf_name_def dest: split_segments)

lemma lookup_snoc: "lookup P n = Some (Dir cs) \<Longrightarrow> lookup (P @ [w]) n = map_of cs w"
  by (induction P arbitrary: n) (auto split: node.splits option.splits)

lemma wf_children_map_of:
  "wf_children cs \<Longrightarrow> (w, c) \<in> set cs \<Longrightarrow> map_of cs w = Some c \<and> wf_name w \<and> wf_node c"
  by (induction cs) (auto simp: rev_image_eqI)

lemma lookup_wf: "wf_node n \<Longrightarrow> lookup p n = Some c \<Longrightarrow> wf_node c"
proof (induction p arbitrary: n)
  case Nil
  then show ?case by simp
next
  case (Cons w p)
  then obtain cs c' where n: "n = Dir cs" and m: "map_of cs w = Some c'"
    and l: "lookup p c' = Some c"
    by (auto split: node.splits option.splits)
  from m have "(w, c') \<in> set cs" by (rule map_of_SomeD)
  with Cons.prems(1) n have "wf_node c'" using wf_children_map_of by auto
  from Cons.IH[OF this l] show ?case .
qed

lemma pools_path:
  "version = ''v4'' \<or> version = ''v6'' \<Longrightarrow>
   path_of (IP_POOLS_PATH version) = [''calico'', ''ipam'', version, ''pool'']"
  by (auto simp: IP_POOLS_PATH_def path_of_def)

lemma pool_key_is_file:
  assumes v: "version = ''v4'' \<or> version = ''v6''"
    and wf: "wf_node (root s)"
    and pools: "get_ip_pools_with_keys N s version = Inr pools"
    and g: "dict_get pools x = Some key"
  shows "\<exists>w p t. path_of key = w # p \<and> lookup (w # p) (root s) = Some (File (Text t))"
proof -
  let ?P = "path_of (IP_POOLS_PATH version)"
  from g have nonempty: "pools \<noteq> []" by auto
  with pools obtain r where r: "etcd_read s (IP_POOLS_PATH version) False = Inr r"
    and po: "pools_of N [] (leaves r) = Inr pools"
    by (auto simp: get_ip_pools_with_keys_def split: sum.splits if_splits)
  from pools_of_values[OF po dict_get_value[OF g]] obtain t where
    t: "(key, Some (Text t)) \<in> set (leaves r)" by auto
  from leaves_read[OF r] obtain n where n: "lookup ?P (root s) = Some n"
    and l: "leaves r =
       (case n of
          File v \<Rightarrow> [(key_of ?P, Some v)]
        | Dir cs \<Rightarrow>
            if cs = [] then [(key_of ?P, None)] else map (child_leaf (key_of ?P)) cs)"
    by blast
  have P: "path_of (key_of ?P) = ?P" by (rule path_of_key_of[OF path_of_wf])
  show ?thesis
  proof (cases n)
    case (File v')
    with t l have "key = key_of ?P" "v' = Text t" by auto
    with n File P pools_path[OF v] show ?thesis by auto
  next
    case (Dir cs)
    with t l obtain w c where wc: "(w, c) \<in> set cs"
      and k: "(key, Some (Text t)) = child_leaf (key_of ?P) (w, c)"
      by (auto split: if_splits)
    from k have key: "key = key_of ?P @ CHR ''/'' # w" and c: "c = File (Text t)"
      by (auto simp: child_leaf_def split: node.splits)
    from lookup_wf[OF wf n] Dir have "wf_children cs" by simp
    from wf_children_map_of[OF this wc] have m: "map_of cs w = Some c" and w: "wf_name w"
      by auto
    have "path_of w = [w]" using w by (simp add: path_of_def split_wf) (simp add: wf_name_def)
    then have pk: "path_of key = ?P @ [w]"
      unfolding key using path_of_append[of "key_of ?P" w] P by simp
    have "lookup (?P @ [w]) (root s) = Some (File (Text t))"
      using lookup_snoc[of ?P "root s" cs w] n Dir m c by simp
    with pk pools_path[OF v] show ?thesis by auto
  qed
qed

lemma remove_file:
  "lookup (w # p) n = Some (File x) \<Longrightarrow>
   (lookup q (remove (w # p) n) = Some (File v)) = (q \<noteq> w # p \<and> lookup q n = Some (File v))"
proof (induction p arbitrary: w n q)
  case Nil
  then obtain cs where n: "n = Dir cs" and m: "map_of cs w = Some (File x)"
    by (auto split: node.splits option.splits)
  show ?case
  proof (cases q)
    case Nil
    with n show ?thesis by simp
  next
    case (Cons w' q')
    with n m show ?thesis
      by (cases q') (auto simp: delete_conv' split: option.splits node.splits)
  qed
next
  case (Cons w2 p)
  then obtain cs c where n: "n = Dir cs" and m: "map_of cs w = Some c"
    and l: "lookup (w2 # p) c = Some (File x)"
    by (auto split: node.splits option.splits)
  have r: "remove (w # w2 # p) n = Dir (AList.update w (remove (w2 # p) c) cs)"
    using n m by simp
  show ?case
  proof (cases q)
    case Nil
    with n r show ?thesis by simp
  next
    case (Cons w' q')
    show ?thesis
    proof (cases "w' = w")
      case True
      with Cons r n m Cons.IH[OF l, of q'] show ?thesis by (simp add: update_conv')
    next
      case False
      with Cons r n show ?thesis by (simp add: update_conv')
    qed
  qed
qed

lemma del_ip_pool_found:
  assumes v: "version = ''v4'' \<or> version = ''v6''"
    and wf: "wf_node (root s)"
    and pools: "get_ip_pools_with_keys N s version = Inr pools"
    and g: "dict_get pools (cidr pool) = Some key"
  shows "del_ip_pool N s version pool =
      (Inr (), \<lparr> root = remove (path_of key) (root s), index = index s + 1 \<rparr>) \<and>
    (\<forall>q x. (lookup q (remove (path_of key) (root s)) = Some (File x)) =
       (q \<noteq> path_of key \<and> lookup q (root s) = Some (File x)))"
proof -
  from pool_key_is_file[OF v wf pools g] obtain w p t where
    k: "path_of key = w # p" and l: "lookup (w # p) (root s) = Some (File (Text t))"
    by blast
  have "etcd_delete s key = Inr \<lparr> root = remove (path_of key) (root s), index = index s + 1 \<rparr>"
    using k l by (simp add: etcd_delete_def)
  then have "del_ip_pool N s version pool =
      (Inr (), \<lparr> root = remove (path_of key) (root s), index = index s + 1 \<rparr>)"
    using v pools g by (auto simp: del_ip_pool_def)
  moreover have "\<forall>q x. (lookup q (remove (path_of key) (root s)) = Some (File x)) =
       (q \<noteq> path_of key \<and> lookup q (root s) = Some (File x))"
    unfolding k using remove_file[OF l] by blast
  ultimately show ?thesis by blast
qed

text \<open>
  C7. With the pools of the version read from a well-formed store: when the normalized
  pool is a key of the mapping, \<^verbatim>\<open>del_ip_pool\<close> returns, and the store differs by the one
  file of the pool's key, which is gone, every other file being as it was; when it is
  not, \<^verbatim>\<open>del_ip_pool\<close> raises the \<^verbatim>\<open>KeyError\<close> whose message is the pool and
  \<^verbatim>\<open>is not a configured IP pool.\<close>, and the store is as it was. The raw not-found error of
  the store never leaves the method.
\<close>

theorem del_ip_pool_policy:
  assumes "version = ''v4'' \<or> version = ''v6''"
    and "wf_node (root s)"
    and "get_ip_pools_with_keys N s version = Inr pools"
  shows "(dict_get pools (cidr pool) = Some key \<longrightarrow>
      (\<exists>s'. del_ip_pool N s version pool = (Inr (), s') \<and>
         (\<forall>q x. (lookup q (root s') = Some (File x)) =
            (q \<noteq> path_of key \<and> lookup q (root s) = Some (File x))))) \<and>
    (dict_get pools (cidr pool) = None \<longrightarrow>
      del_ip_pool N s version pool =
        (Inl (KeyError (str_network N pool @ '' is not a configured IP pool.'')), s)) \<and>
    fst (del_ip_pool N s version pool) \<noteq> Inl EtcdKeyNotFound"
proof (intro conjI impI)
  assume g: "dict_get pools (cidr pool) = Some key"
  from del_ip_pool_found[OF assms g] show
    "\<exists>s'. del_ip_pool N s version pool = (Inr (), s') \<and>
         (\<forall>q x. (lookup q (root s') = Some (File x)) =
            (q \<noteq> path_of key \<and> lookup q (root s) = Some (File x)))"
    by auto
next
  assume "dict_get pools (cidr pool) = None"
  with assms show "del_ip_pool N s version pool =
        (Inl (KeyError (str_network N pool @ '' is not a configured IP pool.'')), s)"
    by (auto simp: del_ip_pool_def not_configured_def)
next
  show "fst (del_ip_pool N s version pool) \<noteq> Inl EtcdKeyNotFound"
  proof (cases "dict_get pools (cidr pool)")
    case None
    with assms show ?thesis by (auto simp: del_ip_pool_def not_configured_def)
  next
    case (Some key')
    from del_ip_pool_found[OF assms Some] show ?thesis by simp
  qed
qed

lemma net_10_0_0_0_8: "IPNetwork ipv4_text ''10.0.0.0/8'' = Inr (IPNet 4 167772160 8)"
  by (simp add: ipv4_text_def ipv4_IPNetwork_def parse_quad_def parse_dec_def digit_val_def)

lemma cidr_10_1_1_1_8: "cidr (IPNet 4 167837953 8) = IPNet 4 167772160 8"
  by (simp add: cidr_def first_def hostbits_def width_def)

lemma str_10_1_1_1_8: "str_network ipv4_text (IPNet 4 167837953 8) = ''10.1.1.1/8''"
  by (simp add: ipv4_text_def show_quad_def show_dec_def digit_char_def)

lemma str_10_0_0_0_8: "str_network ipv4_text (IPNet 4 167772160 8) = ''10.0.0.0/8''"
  by (simp add: ipv4_text_def show_quad_def show_dec_def digit_char_def)

lemma v4_pools_path: "path_of (IP_POOLS_PATH ''v4'') = [''calico'', ''ipam'', ''v4'', ''pool'']"
  by (simp add: pools_path)

lemma pool_store_pools:
  "get_ip_pools_with_keys ipv4_text pool_store ''v4'' =
     Inr [(IPNet 4 167772160 8, ''/calico/ipam/v4/pool/0'')]"
  unfolding get_ip_pools_with_keys_def etcd_read_def v4_pools_path
  by (simp add: pool_store_def shallow_def leaves_def key_of_def value_bool_def
      IPNetwork_value_def net_10_0_0_0_8)

lemma empty_store_pools: "get_ip_pools_with_keys ipv4_text empty_store ''v4'' = Inr []"
  unfolding get_ip_pools_with_keys_def etcd_read_def v4_pools_path
  by (simp add: empty_store_def)

theorem del_ip_pool_policy_witness:
  "(\<exists>s'. del_ip_pool ipv4_text pool_store ''v4'' (IPNet 4 167837953 8) = (Inr (), s') \<and>
      (\<forall>q x. (lookup q (root s') = Some (File x)) =
         (q \<noteq> path_of ''/calico/ipam/v4/pool/0'' \<and>
          lookup q (root pool_store) = Some (File x)))) \<and>
   del_ip_pool ipv4_text empty_store ''v4'' (IPNet 4 167837953 8) =
     (Inl (KeyError ''10.1.1.1/8 is not a configured IP pool.''), empty_store)"
proof -
  have wf1: "wf_node (root pool_store)" by (simp add: pool_store_def wf_name_def)
  have wf0: "wf_node (root empty_store)" by (simp add: empty_store_def)
  have g1: "dict_get [(IPNet 4 167772160 8, ''/calico/ipam/v4/pool/0'')]
      (cidr (IPNet 4 167837953 8)) = Some ''/calico/ipam/v4/pool/0''"
    by (simp add: cidr_10_1_1_1_8 net_eq_def)
  have 1: "\<exists>s'. del_ip_pool ipv4_text pool_store ''v4'' (IPNet 4 167837953 8) = (Inr (), s') \<and>
      (\<forall>q x. (lookup q (root s') = Some (File x)) =
         (q \<noteq> path_of ''/calico/ipam/v4/pool/0'' \<and>
          lookup q (root pool_store) = Some (File x)))"
    using del_ip_pool_policy[OF _ wf1 pool_store_pools, of "IPNet 4 167837953 8"
        "''/calico/ipam/v4/pool/0''"] g1
    by blast
  have 2: "del_ip_pool ipv4_text empty_store ''v4'' (IPNet 4 167837953 8) =
     (Inl (KeyError ''10.1.1.1/8 is not a configured IP pool.''), empty_store)"
    using del_ip_pool_policy[OF _ wf0 empty_store_pools, of "IPNet 4 167837953 8"]
    by (simp add: str_10_1_1_1_8)
  from 1 2 show ?thesis by blast
qed


section \<open>Adding a pool\<close>

lemma net_eq_refl: "net_eq a a"
  by (simp add: net_eq_def)

lemma net_eq_trans: "net_eq a b \<Longrightarrow> net_eq b c \<Longrightarrow> net_eq a c"
  by (simp add: net_eq_def)

lemma dict_set_keys: "k0 \<in> fst ` set d \<Longrightarrow> k0 \<in> fst ` set (dict_set d k v)"
  by (induction d) force+

lemma dict_set_has: "list_ex (\<lambda>k'. net_eq k' k) (map fst (dict_set d k v))"
  by (induction d) (auto simp: net_eq_refl)

lemma pools_of_keys_kept:
  "pools_of N acc xs = Inr d \<Longrightarrow> k0 \<in> fst ` set acc \<Longrightarrow> k0 \<in> fst ` set d"
proof (induction xs arbitrary: acc)
  case Nil
  then show ?case by simp
next
  case (Cons kv xs)
  obtain k v where kv: "kv = (k, v)" by (cases kv)
  show ?case
  proof (cases "value_bool v")
    case False
    with Cons.IH[of acc] Cons.prems kv show ?thesis by auto
  next
    case True
    with Cons.prems kv obtain pool where
      r: "pools_of N (dict_set acc pool k) xs = Inr d"
      by (auto split: sum.splits)
    from Cons.IH[OF r dict_set_keys[OF Cons.prems(2)]] show ?thesis .
  qed
qed

lemma pools_of_cover:
  "pools_of N acc xs = Inr d \<Longrightarrow> (key, v) \<in> set xs \<Longrightarrow> value_bool v \<Longrightarrow>
   IPNetwork_value N v = Inr n \<Longrightarrow> list_ex (\<lambda>k. net_eq k n) (map fst d)"
proof (induction xs arbitrary: acc)
  case Nil
  then show ?case by simp
next
  case (Cons kv xs)
  obtain k' v' where kv: "kv = (k', v')" by (cases kv)
  show ?case
  proof (cases "value_bool v'")
    case False
    with Cons kv show ?thesis by auto
  next
    case True
    with Cons.prems(1) kv obtain pool where
      p: "IPNetwork_value N v' = Inr pool" and
      r: "pools_of N (dict_set acc pool k') xs = Inr d"
      by (auto split: sum.splits)
    show ?thesis
    proof (cases "(key, v) = (k', v')")
      case True
      with p Cons.prems(4) have "pool = n" by simp
      with dict_set_has[of n acc k'] obtain k where
        "k \<in> fst ` set (dict_set acc pool k')" "net_eq k n"
        by (auto simp: list_ex_iff)
      with pools_of_keys_kept[OF r, of k] show ?thesis by (force simp: list_ex_iff)
    next
      case False
      with Cons.prems(2) kv have "(key, v) \<in> set xs" by auto
      from Cons.IH[OF r this Cons.prems(3,4)] show ?thesis .
    qed
  qed
qed

lemma pools_of_parsed:
  "pools_of N acc xs = Inr d \<Longrightarrow> (key, v) \<in> set xs \<Longrightarrow> value_bool v \<Longrightarrow>
   \<exists>n. IPNetwork_value N v = Inr n"
proof (induction xs arbitrary: acc)
  case Nil
  then show ?case by simp
next
  case (Cons kv xs)
  obtain k' v' where kv: "kv = (k', v')" by (cases kv)
  from Cons kv show ?case
    by (cases "value_bool v'") (auto split: sum.splits)
qed

lemma pools_of_ok:
  "list_all (\<lambda>kv. \<not> value_bool (snd kv) \<or> (\<exists>n. IPNetwork_value N (snd kv) = Inr n)) xs \<Longrightarrow>
   \<exists>d. pools_of N acc xs = Inr d"
proof (induction xs arbitrary: acc)
  case Nil
  then show ?case by simp
next
  case (Cons kv xs)
  obtain k' v' where kv: "kv = (k', v')" by (cases kv)
  from Cons kv show ?case
    by (cases "value_bool v'") auto
qed

lemma put_child:
  "put (P @ [w]) new n = Inr n' \<Longrightarrow>
   lookup P n' =
     Some (Dir (AList.update w new (case lookup P n of Some (Dir cs) \<Rightarrow> cs | _ \<Rightarrow> [])))"
proof (induction P arbitrary: n n')
  case Nil
  then show ?case by (auto split: node.splits sum.splits)
next
  case (Cons u P)
  from Cons.prems obtain cs c' where n: "n = Dir cs"
    and c': "put (P @ [w]) new (case map_of cs u of None \<Rightarrow> Dir [] | Some c \<Rightarrow> c) = Inr c'"
    and n': "n' = Dir (AList.update u c' cs)"
    by (auto split: node.splits sum.splits)
  have e: "lookup P (Dir []) = Some (Dir []) \<or> lookup P (Dir []) = None" by (cases P) auto
  from Cons.IH[OF c'] n n' e show ?case
    by (auto simp: update_conv' split: option.splits)
qed

lemma dirs_to_not_file: "dirs_to (P @ [w]) n \<Longrightarrow> lookup P n \<noteq> Some (File v)"
  by (induction P arbitrary: n) (auto split: node.splits option.splits)

lemma filter_update:
  "list_all (\<lambda>e. \<not> Q (f e)) al \<Longrightarrow> Q (f (k, v)) \<Longrightarrow>
   filter Q (map f (AList.update k v al)) = [f (k, v)]"
  by (induction al) (auto simp: filter_empty_conv list_all_iff)

lemma update_set: "set (AList.update k v al) \<subseteq> insert (k, v) (set al)"
  by (induction al) auto

lemma update_mem: "(k, v) \<in> set (AList.update k v al)"
  by (induction al) auto

lemma dict_set_keys_from:
  "k0 \<in> fst ` set (dict_set d k v) \<Longrightarrow> k0 = k \<or> k0 \<in> fst ` set d"
  by (induction d) (force split: if_splits)+

lemma pools_of_keys_from:
  "pools_of N acc xs = Inr d \<Longrightarrow> k \<in> fst ` set d \<Longrightarrow>
   k \<in> fst ` set acc \<or>
   (\<exists>key v. (key, v) \<in> set xs \<and> value_bool v \<and> IPNetwork_value N v = Inr k)"
proof (induction xs arbitrary: acc)
  case Nil
  then show ?case by simp
next
  case (Cons kv xs)
  obtain k' v' where kv: "kv = (k', v')" by (cases kv)
  show ?case
  proof (cases "value_bool v'")
    case False
    with Cons.IH[of acc] Cons.prems kv show ?thesis by auto
  next
    case True
    with Cons.prems(1) kv obtain pool where
      p: "IPNetwork_value N v' = Inr pool" and
      r: "pools_of N (dict_set acc pool k') xs = Inr d"
      by (auto split: sum.splits)
    from Cons.IH[OF r Cons.prems(2)] show ?thesis
    proof
      assume "k \<in> fst ` set (dict_set acc pool k')"
      from dict_set_keys_from[OF this] p True kv show ?thesis by auto
    next
      assume "\<exists>key v. (key, v) \<in> set xs \<and> value_bool v \<and> IPNetwork_value N v = Inr k"
      then show ?thesis by auto
    qed
  qed
qed

lemma pools_view:
  assumes "\<forall>x. lookup (path_of (IP_POOLS_PATH version)) (root s) \<noteq> Some (File x)"
  shows "get_ip_pools_with_keys N s version =
      pools_of N [] (map (child_leaf (key_of (path_of (IP_POOLS_PATH version))))
        (pool_children s version))"
    and "pool_entries N s version pool =
      filter (is_pool_entry N pool)
        (map (child_leaf (key_of (path_of (IP_POOLS_PATH version)))) (pool_children s version))"
  using assms
  by (auto simp: get_ip_pools_with_keys_def etcd_read_def leaves_def shallow_def
      children_leaves_shallow pool_children_def pool_entries_def value_bool_def
      is_pool_entry_def split: option.splits node.splits)

lemma append_children:
  assumes "etcd_write_append s (IP_POOL_PATH version) v = Inr s1"
  shows "\<forall>x. lookup (path_of (IP_POOLS_PATH version)) (root s) \<noteq> Some (File x)"
    and "\<forall>x. lookup (path_of (IP_POOLS_PATH version)) (root s1) \<noteq> Some (File x)"
    and "pool_children s1 version =
       AList.update (show_nat (index s)) (File v) (pool_children s version)"
proof -
  have e: "IP_POOL_PATH version = IP_POOLS_PATH version"
    by (simp add: IP_POOL_PATH_def IP_POOLS_PATH_def)
  let ?P = "path_of (IP_POOLS_PATH version)"
  from assms show nf: "\<forall>x. lookup ?P (root s) \<noteq> Some (File x)"
    by (auto simp: etcd_write_append_def e split: option.splits node.splits)
  from assms have "put (?P @ [show_nat (index s)]) (File v) (root s) = Inr (root s1)"
    by (auto simp: etcd_write_append_def e split: option.splits node.splits sum.splits)
  from put_child[OF this] have l: "lookup ?P (root s1) =
     Some (Dir (AList.update (show_nat (index s)) (File v)
       (case lookup ?P (root s) of Some (Dir cs) \<Rightarrow> cs | _ \<Rightarrow> [])))" .
  then show "\<forall>x. lookup ?P (root s1) \<noteq> Some (File x)" by simp
  from l show "pool_children s1 version =
       AList.update (show_nat (index s)) (File v) (pool_children s version)"
    by (simp add: pool_children_def)
qed

lemma configured_entry:
  assumes pools: "get_ip_pools_with_keys N s version = Inr pools"
    and c: "list_ex (\<lambda>p. net_eq (cidr pool) p) (map fst pools)"
  shows "pool_entries N s version pool \<noteq> []"
proof -
  from c obtain k where k: "k \<in> fst ` set pools" and e: "net_eq (cidr pool) k"
    by (auto simp: list_ex_iff)
  then have "pools \<noteq> []" by auto
  with pools obtain r where r: "etcd_read s (IP_POOLS_PATH version) False = Inr r"
    and po: "pools_of N [] (leaves r) = Inr pools"
    by (auto simp: get_ip_pools_with_keys_def split: sum.splits if_splits)
  from pools_of_keys_from[OF po k] obtain key v where
    m: "(key, v) \<in> set (leaves r)" and b: "value_bool v" and n: "IPNetwork_value N v = Inr k"
    by auto
  then have "is_pool_entry N pool (key, v)" using e by (simp add: is_pool_entry_def)
  with m have "filter (is_pool_entry N pool) (leaves r) \<noteq> []"
    by (auto simp: filter_empty_conv)
  then show ?thesis using r by (simp add: pool_entries_def)
qed

lemma entry_configured:
  assumes po: "pools_of N [] xs = Inr pools"
    and m: "kv \<in> set xs" and e: "is_pool_entry N pool kv"
  shows "list_ex (\<lambda>p. net_eq (cidr pool) p) (map fst pools)"
proof -
  obtain key v where kv: "kv = (key, v)" by (cases kv)
  from e kv obtain n where b: "value_bool v" and n: "IPNetwork_value N v = Inr n"
    and q: "net_eq (cidr pool) n"
    by (auto simp: is_pool_entry_def split: sum.splits)
  from m kv have "(key, v) \<in> set xs" by simp
  from pools_of_cover[OF po this b n] obtain k where
    "k \<in> fst ` set pools" "net_eq k n" by (auto simp: list_ex_iff)
  with q have "net_eq (cidr pool) k" using net_eq_sym[of k n] net_eq_trans by blast
  with \<open>k \<in> fst ` set pools\<close> show ?thesis by (auto simp: list_ex_iff)
qed

lemma add_ip_pool_written:
  assumes v: "version = ''v4'' \<or> version = ''v6''"
    and lib: "IPNetwork N (str_network N (cidr pool)) = Inr n'" "net_eq (cidr pool) n'"
      "str_network N (cidr pool) \<noteq> []"
    and pools: "get_ip_pools_with_keys N s version = Inr pools"
    and nc: "\<not> list_ex (\<lambda>p. net_eq (cidr pool) p) (map fst pools)"
    and w: "etcd_write_append s (IP_POOL_PATH version) (Text (str_network N (cidr pool))) = Inr s1"
  shows "add_ip_pool N s1 version pool = (Inr (), s1)"
    and "pool_entries N s version pool = []"
    and "pool_entries N s1 version pool =
      [(key_of (path_of (IP_POOL_PATH version)) @ ''/'' @ show_nat (index s),
        Some (Text (str_network N (cidr pool))))]"
proof -
  let ?k = "key_of (path_of (IP_POOLS_PATH version))"
  let ?cs = "pool_children s version"
  let ?new = "(show_nat (index s), File (Text (str_network N (cidr pool))))"
  have pe: "IP_POOL_PATH version = IP_POOLS_PATH version"
    by (simp add: IP_POOL_PATH_def IP_POOLS_PATH_def)
  note ac = append_children[OF w]
  have po: "pools_of N [] (map (child_leaf ?k) ?cs) = Inr pools"
    using pools_view(1)[OF ac(1), of N] pools by simp
  have new: "is_pool_entry N pool (child_leaf ?k ?new)"
    using lib by (simp add: is_pool_entry_def child_leaf_def value_bool_def IPNetwork_value_def)
  have none: "list_all (\<lambda>e. \<not> is_pool_entry N pool (child_leaf ?k e)) ?cs"
  proof (rule ccontr)
    assume "\<not> list_all (\<lambda>e. \<not> is_pool_entry N pool (child_leaf ?k e)) ?cs"
    then obtain e where "e \<in> set ?cs" "is_pool_entry N pool (child_leaf ?k e)"
      by (auto simp: list_all_iff)
    then have "child_leaf ?k e \<in> set (map (child_leaf ?k) ?cs)" by simp
    from entry_configured[OF po this \<open>is_pool_entry N pool (child_leaf ?k e)\<close>] nc
    show False by simp
  qed
  show "pool_entries N s version pool = []"
    using pools_view(2)[OF ac(1), of N pool] none
    by (simp add: filter_empty_conv list_all_iff)
  show "pool_entries N s1 version pool =
      [(key_of (path_of (IP_POOL_PATH version)) @ ''/'' @ show_nat (index s),
        Some (Text (str_network N (cidr pool))))]"
    using pools_view(2)[OF ac(2), of N pool] ac(3)
      filter_update[of "is_pool_entry N pool" "child_leaf ?k" ?cs "fst ?new" "snd ?new",
        OF none] new
    by (simp add: child_leaf_def pe)
  let ?cs1 = "AList.update (fst ?new) (snd ?new) ?cs"
  have "list_all (\<lambda>kv. \<not> value_bool (snd kv) \<or> (\<exists>n. IPNetwork_value N (snd kv) = Inr n))
      (map (child_leaf ?k) ?cs1)"
  proof -
    have "\<not> value_bool (snd (child_leaf ?k e)) \<or>
        (\<exists>n. IPNetwork_value N (snd (child_leaf ?k e)) = Inr n)" if "e \<in> set ?cs1" for e
    proof (cases "e = ?new")
      case True
      then show ?thesis using lib(1)
        by (simp add: child_leaf_def IPNetwork_value_def)
    next
      case False
      with that update_set[of "fst ?new" "snd ?new" ?cs] have "e \<in> set ?cs" by auto
      then have "(fst (child_leaf ?k e), snd (child_leaf ?k e)) \<in> set (map (child_leaf ?k) ?cs)"
        by auto
      from pools_of_parsed[OF po this] show ?thesis by blast
    qed
    then show ?thesis by (simp add: list_all_iff)
  qed
  from pools_of_ok[OF this, of "[]"] obtain d1 where
    d1: "pools_of N [] (map (child_leaf ?k) ?cs1) = Inr d1" by blast
  have "child_leaf ?k ?new \<in> set (map (child_leaf ?k) ?cs1)"
    using update_mem[of "fst ?new" "snd ?new" ?cs] by (simp del: fst_conv snd_conv)
  from entry_configured[OF d1 this new]
  have c1: "list_ex (\<lambda>p. net_eq (cidr pool) p) (map fst d1)" .
  have "get_ip_pools_with_keys N s1 version = Inr d1"
    using pools_view(1)[OF ac(2), of N] ac(3) d1 by simp
  then show "add_ip_pool N s1 version pool = (Inr (), s1)"
    using v c1 by (auto simp: add_ip_pool_def get_ip_pools_def Let_def)
qed

lemma add_ip_pool_known:
  assumes "version = ''v4'' \<or> version = ''v6''"
    and "get_ip_pools_with_keys N s version = Inr pools"
    and "list_ex (\<lambda>p. net_eq (cidr pool) p) (map fst pools)"
  shows "add_ip_pool N s version pool = (Inr (), s)"
  using assms by (auto simp: add_ip_pool_def get_ip_pools_def Let_def)

lemma add_ip_pool_new:
  assumes "version = ''v4'' \<or> version = ''v6''"
    and "get_ip_pools_with_keys N s version = Inr pools"
    and "\<not> list_ex (\<lambda>p. net_eq (cidr pool) p) (map fst pools)"
  shows "add_ip_pool N s version pool =
     (case etcd_write_append s (IP_POOL_PATH version) (Text (str_network N (cidr pool))) of
        Inl e \<Rightarrow> (Inl e, s)
      | Inr s' \<Rightarrow> (Inr (), s'))"
  using assms by (auto simp: add_ip_pool_def get_ip_pools_def Let_def)

lemma etcd_write_append_ok:
  assumes "dirs_to (path_of key @ [show_nat (index s)]) (root s)"
  shows "\<exists>s'. etcd_write_append s key v = Inr s'"
proof -
  from put_ok[OF assms, of "File v"] obtain n' where
    "put (path_of key @ [show_nat (index s)]) (File v) (root s) = Inr n'" by blast
  with dirs_to_not_file[OF assms] show ?thesis
    by (auto simp: etcd_write_append_def split: option.splits node.splits)
qed

lemma cidr_host_bits: "net_value (cidr pool) mod 2 ^ hostbits pool = 0"
  by (simp add: cidr_def first_def)

text \<open>
  C6. \<^verbatim>\<open>add_ip_pool\<close> works on the pool with its host bits cleared. With the pools of
  the version read from the store, and netaddr reading the text of the normalized pool
  back as an equal network: the call returns whenever the store can take a new file in
  the pool directory; and when it has returned, a second call with the same pool returns
  and leaves the store as the first call left it. If the store held no entry for the
  pool, it now holds one, the text of the normalized pool under a new key of the pool
  directory; if it held one, the first call wrote nothing. So a store with at most one
  entry for the pool has exactly one after the two calls.
\<close>

theorem add_ip_pool_idempotent:
  assumes "version = ''v4'' \<or> version = ''v6''"
    and "IPNetwork N (str_network N (cidr pool)) = Inr n'"
    and "net_eq (cidr pool) n'"
    and "str_network N (cidr pool) \<noteq> []"
    and "get_ip_pools_with_keys N s version = Inr pools"
  shows "(dirs_to (path_of (IP_POOL_PATH version) @ [show_nat (index s)]) (root s) \<longrightarrow>
       (\<exists>s'. add_ip_pool N s version pool = (Inr (), s'))) \<and>
    (add_ip_pool N s version pool = (Inr (), s1) \<longrightarrow>
       add_ip_pool N s1 version pool = (Inr (), s1) \<and>
       (pool_entries N s version pool = [] \<longrightarrow>
          pool_entries N s1 version pool =
            [(key_of (path_of (IP_POOL_PATH version)) @ ''/'' @ show_nat (index s),
              Some (Text (str_network N (cidr pool))))]) \<and>
       (pool_entries N s version pool \<noteq> [] \<longrightarrow> s1 = s) \<and>
       (length (pool_entries N s version pool) \<le> 1 \<longrightarrow>
          length (pool_entries N s1 version pool) = 1)) \<and>
    net_value (cidr pool) mod 2 ^ hostbits pool = 0"
proof (intro conjI impI)
  assume d: "dirs_to (path_of (IP_POOL_PATH version) @ [show_nat (index s)]) (root s)"
  show "\<exists>s'. add_ip_pool N s version pool = (Inr (), s')"
  proof (cases "list_ex (\<lambda>p. net_eq (cidr pool) p) (map fst pools)")
    case True
    from add_ip_pool_known[OF assms(1,5) True] show ?thesis by blast
  next
    case False
    from etcd_write_append_ok[OF d] obtain s' where
      "etcd_write_append s (IP_POOL_PATH version) (Text (str_network N (cidr pool))) = Inr s'"
      by blast
    with add_ip_pool_new[OF assms(1,5) False] show ?thesis by simp
  qed
next
  show "net_value (cidr pool) mod 2 ^ hostbits pool = 0" by (rule cidr_host_bits)
next
  assume a: "add_ip_pool N s version pool = (Inr (), s1)"
  have "add_ip_pool N s1 version pool = (Inr (), s1) \<and>
       (pool_entries N s version pool = [] \<longrightarrow>
          pool_entries N s1 version pool =
            [(key_of (path_of (IP_POOL_PATH version)) @ ''/'' @ show_nat (index s),
              Some (Text (str_network N (cidr pool))))]) \<and>
       (pool_entries N s version pool \<noteq> [] \<longrightarrow> s1 = s)"
  proof (cases "list_ex (\<lambda>p. net_eq (cidr pool) p) (map fst pools)")
    case True
    from add_ip_pool_known[OF assms(1,5) True] a have e: "s1 = s" by simp
    from configured_entry[OF assms(5) True] have "pool_entries N s version pool \<noteq> []" .
    with e a show ?thesis by simp
  next
    case False
    with add_ip_pool_new[OF assms(1,5) False] a have
      w: "etcd_write_append s (IP_POOL_PATH version) (Text (str_network N (cidr pool))) = Inr s1"
      by (simp split: sum.splits)
    from add_ip_pool_written[OF assms False w] show ?thesis by simp
  qed
  then show "add_ip_pool N s1 version pool = (Inr (), s1)"
    and "pool_entries N s version pool = [] \<Longrightarrow>
          pool_entries N s1 version pool =
            [(key_of (path_of (IP_POOL_PATH version)) @ ''/'' @ show_nat (index s),
              Some (Text (str_network N (cidr pool))))]"
    and "pool_entries N s version pool \<noteq> [] \<Longrightarrow> s1 = s"
    and "length (pool_entries N s version pool) \<le> 1 \<Longrightarrow>
          length (pool_entries N s1 version pool) = 1"
    by (simp_all, cases "pool_entries N s version pool", simp_all)
qed

lemma empty_store_entries: "pool_entries ipv4_text empty_store ''v4'' pool = []"
  unfolding pool_entries_def etcd_read_def v4_pools_path
  by (simp add: empty_store_def)

lemma v4_pool_path: "path_of (IP_POOL_PATH ''v4'') = [''calico'', ''ipam'', ''v4'', ''pool'']"
  using v4_pools_path by (simp add: IP_POOL_PATH_def IP_POOLS_PATH_def)

lemma show_nat_0: "show_nat 0 = ''0''"
  by (simp add: show_nat.simps digit_char_def)

lemma add_empty_eval:
  "add_ip_pool ipv4_text empty_store ''v4'' (IPNet 4 167837953 8) = (Inr (), pool_store)"
proof -
  have "etcd_write_append empty_store (IP_POOL_PATH ''v4'') (Text ''10.0.0.0/8'') =
      Inr pool_store"
    unfolding etcd_write_append_def v4_pool_path
    by (simp add: empty_store_def pool_store_def show_nat_0)
  then show ?thesis
    by (simp add: add_ip_pool_def get_ip_pools_def empty_store_pools cidr_10_1_1_1_8
        str_10_0_0_0_8)
qed

text \<open>
  \<^verbatim>\<open>10.1.1.1/8\<close> added twice to the empty store as an IPv4 pool: the first call stores
  \<^verbatim>\<open>10.0.0.0/8\<close> under the key \<^verbatim>\<open>/calico/ipam/v4/pool/0\<close>, the second call changes
  nothing, and this is the one entry of the pool.
\<close>

theorem add_ip_pool_idempotent_witness:
  "add_ip_pool ipv4_text empty_store ''v4'' (IPNet 4 167837953 8) = (Inr (), pool_store) \<and>
   add_ip_pool ipv4_text pool_store ''v4'' (IPNet 4 167837953 8) = (Inr (), pool_store) \<and>
   pool_entries ipv4_text empty_store ''v4'' (IPNet 4 167837953 8) = [] \<and>
   pool_entries ipv4_text pool_store ''v4'' (IPNet 4 167837953 8) =
     [(''/calico/ipam/v4/pool/0'', Some (Text ''10.0.0.0/8''))] \<and>
   cidr (IPNet 4 167837953 8) = IPNet 4 167772160 8"
proof -
  have l: "IPNetwork ipv4_text (str_network ipv4_text (cidr (IPNet 4 167837953 8))) =
      Inr (IPNet 4 167772160 8)"
    "net_eq (cidr (IPNet 4 167837953 8)) (IPNet 4 167772160 8)"
    "str_network ipv4_text (cidr (IPNet 4 167837953 8)) \<noteq> []"
    by (simp_all add: cidr_10_1_1_1_8 str_10_0_0_0_8 net_10_0_0_0_8 net_eq_def)
  have k: "key_of (path_of (IP_POOL_PATH ''v4'')) = ''/calico/ipam/v4/pool''"
    "show_nat (index empty_store) = ''0''"
    by (simp_all add: v4_pool_path key_of_def show_nat_0 empty_store_def)
  from add_ip_pool_idempotent[where version = "''v4''" and N = ipv4_text
      and pool = "IPNet 4 167837953 8" and s = empty_store and ?s1.0 = pool_store,
      OF _ l empty_store_pools]
    add_empty_eval empty_store_entries[of "IPNet 4 167837953 8"]
  have "add_ip_pool ipv4_text pool_store ''v4'' (IPNet 4 167837953 8) = (Inr (), pool_store)"
    and "pool_entries ipv4_text pool_store ''v4'' (IPNet 4 167837953 8) =
      [(''/calico/ipam/v4/pool/0'', Some (Text ''10.0.0.0/8''))]"
    by (simp_all add: k cidr_10_1_1_1_8 str_10_0_0_0_8)
  with add_empty_eval empty_store_entries[of "IPNet 4 167837953 8"] cidr_10_1_1_1_8
  show ?thesis by simp
qed


section \<open>Rule construction\<close>

lemma Rule_items_refused:
  "list_ex (\<lambda>kv. fst kv \<notin> set ALLOWED_KEYS) kwargs \<Longrightarrow>
   \<exists>k. k \<in> fst ` set kwargs \<and> k \<notin> set ALLOWED_KEYS \<and>
       Rule_items self kwargs = Inl (KeyError (''Key '' @ k @ '' is not allowed on Rule.''))"
proof (induction kwargs arbitrary: self)
  case Nil
  then show ?case by simp
next
  case (Cons kv kwargs)
  obtain key v where kv: "kv = (key, v)" by (cases kv)
  show ?case
  proof (cases "key \<in> set ALLOWED_KEYS")
    case True
    with Cons.prems kv have "list_ex (\<lambda>kv. fst kv \<notin> set ALLOWED_KEYS) kwargs" by simp
    from Cons.IH[OF this, of "AList.update key v self"] True kv show ?thesis
      by (auto simp: Rule_setitem_def)
  next
    case False
    with kv show ?thesis by (auto simp: Rule_setitem_def)
  qed
qed

lemma update_fresh: "k \<notin> fst ` set al \<Longrightarrow> AList.update k v al = al @ [(k, v)]"
  by (induction al) auto

lemma Rule_items_accepted:
  "list_all (\<lambda>kv. fst kv \<in> set ALLOWED_KEYS) kwargs \<Longrightarrow>
   distinct (map fst (self @ kwargs)) \<Longrightarrow>
   Rule_items self kwargs = Inr (self @ kwargs)"
proof (induction kwargs arbitrary: self)
  case Nil
  then show ?case by simp
next
  case (Cons kv kwargs)
  obtain key v where kv: "kv = (key, v)" by (cases kv)
  have fresh: "key \<notin> fst ` set self" using Cons.prems(2) kv by auto
  have d: "distinct (map fst ((self @ [(key, v)]) @ kwargs))" using Cons.prems(2) kv by simp
  have a: "list_all (\<lambda>kv. fst kv \<in> set ALLOWED_KEYS) kwargs" using Cons.prems(1) by simp
  have k: "key \<in> set ALLOWED_KEYS" using Cons.prems(1) kv by simp
  show ?case using Cons.IH[OF a d] k kv by (simp add: Rule_setitem_def update_fresh[OF fresh])
qed

text \<open>
  C9. Keyword arguments with a key outside the nine allowed ones: the constructor raises
  the \<^verbatim>\<open>KeyError\<close> that names such a key, and there is no \<^verbatim>\<open>Rule\<close>. Keyword arguments
  (a dictionary, so with distinct keys) whose keys are all allowed: the constructor
  returns the \<^verbatim>\<open>Rule\<close> that holds exactly these items.
\<close>

theorem Rule_validation:
  "(list_ex (\<lambda>kv. fst kv \<notin> set ALLOWED_KEYS) kwargs \<longrightarrow>
      (\<exists>k. k \<in> fst ` set kwargs \<and> k \<notin> set ALLOWED_KEYS \<and>
           Rule kwargs = Inl (KeyError (''Key '' @ k @ '' is not allowed on Rule.'')))) \<and>
   (list_all (\<lambda>kv. fst kv \<in> set ALLOWED_KEYS) kwargs \<and> distinct (map fst kwargs) \<longrightarrow>
      Rule kwargs = Inr kwargs)"
  using Rule_items_refused[of kwargs "[]"] Rule_items_accepted[of kwargs "[]"]
  by (auto simp: Rule_def)

theorem Rule_validation_witness:
  "Rule [(''action'', ''deny''), (''colour'', ''red'')] =
     Inl (KeyError ''Key colour is not allowed on Rule.'') \<and>
   Rule [(''protocol'', ''tcp''), (''action'', ''allow'')] =
     Inr [(''protocol'', ''tcp''), (''action'', ''allow'')]"
proof -
  let ?bad = "[(''action'', ''deny''), (''colour'', ''red'')]"
  let ?good = "[(''protocol'', ''tcp''), (''action'', ''allow'')]"
  have "list_ex (\<lambda>kv. fst kv \<notin> set ALLOWED_KEYS) ?bad"
    by (simp add: ALLOWED_KEYS_def)
  with Rule_validation[of ?bad] obtain k where
    k: "k \<in> fst ` set ?bad" "k \<notin> set ALLOWED_KEYS"
    and r: "Rule ?bad = Inl (KeyError (''Key '' @ k @ '' is not allowed on Rule.''))"
    by blast
  from k have "k = ''colour''" by (simp add: ALLOWED_KEYS_def)
  with r have 1: "Rule ?bad = Inl (KeyError ''Key colour is not allowed on Rule.'')" by simp
  have "list_all (\<lambda>kv. fst kv \<in> set ALLOWED_KEYS) ?good \<and> distinct (map fst ?good)"
    by (simp add: ALLOWED_KEYS_def)
  with Rule_validation[of ?good] have 2: "Rule ?good = Inr ?good" by blast
  from 1 2 show ?thesis by blast
qed


end
